theory Spec2Isabelle
  imports Complex_Main "HOL-Library.Multiset" "HOL-Library.Char_ord" "HOL-Library.List_Lexorder" "HOL-Library.Product_Lexorder" "HOL-Library.AList"
begin

section \<open>Calendar timestamps\<close>

text \<open>
  A parsed date cell of the table is a timestamp: a civil date with a time of day
  (nanoseconds since midnight). The year is unbounded in this model; the finite range
  of the library's timestamp type is not represented.
\<close>

record timestamp =
  ts_year :: int
  ts_month :: int
  ts_day :: int
  ts_nanos :: int

definition isleap :: "int \<Rightarrow> bool" where
  "isleap y = (y mod 4 = 0 \<and> (y mod 100 \<noteq> 0 \<or> y mod 400 = 0))"

text \<open>Number of days of a month (\<open>calendar.monthrange(year, month)[1]\<close>).\<close>

definition monthrange :: "int \<Rightarrow> int \<Rightarrow> int" where
  "monthrange y m =
     (if m = 2 then (if isleap y then 29 else 28)
      else if m = 4 \<or> m = 6 \<or> m = 9 \<or> m = 11 then 30 else 31)"

definition valid_ts :: "timestamp \<Rightarrow> bool" where
  "valid_ts t = (1 \<le> ts_month t \<and> ts_month t \<le> 12 \<and> 1 \<le> ts_day t
     \<and> ts_day t \<le> monthrange (ts_year t) (ts_month t)
     \<and> 0 \<le> ts_nanos t \<and> ts_nanos t < 86400000000000)"

text \<open>
  Proleptic Gregorian day number of a date, and the position of a timestamp on the
  time line in nanoseconds since 1970-01-01. Timestamps are compared by this value.
\<close>

definition days_before_year :: "int \<Rightarrow> int" where
  "days_before_year y = (y - 1) * 365 + (y - 1) div 4 - (y - 1) div 100 + (y - 1) div 400"

definition days_before_month :: "int \<Rightarrow> int \<Rightarrow> int" where
  "days_before_month y m =
     [0, 31, 59, 90, 120, 151, 181, 212, 243, 273, 304, 334] ! nat (m - 1)
       + (if m > 2 \<and> isleap y then 1 else 0)"

definition toordinal :: "timestamp \<Rightarrow> int" where
  "toordinal t = days_before_year (ts_year t) + days_before_month (ts_year t) (ts_month t) + ts_day t"

definition nanos_per_day :: int where
  "nanos_per_day = 86400000000000"

definition ts_value :: "timestamp \<Rightarrow> int" where
  "ts_value t = (toordinal t - 719163) * nanos_per_day + ts_nanos t"

text \<open>\<open>timedelta(days=n)\<close> as a length on the time line.\<close>

definition timedelta_days :: "int \<Rightarrow> int" where
  "timedelta_days n = n * nanos_per_day"

subsection \<open>Month offsets\<close>

text \<open>
  \<open>relativedelta(months=n)\<close> normalises its argument on construction: a month count
  beyond 11 in absolute value is carried into years, keeping the sign.
\<close>

record relativedelta =
  rd_years :: int
  rd_months :: int

definition relativedelta_months :: "int \<Rightarrow> relativedelta" where
  "relativedelta_months n =
     (if \<bar>n\<bar> > 11
      then \<lparr>rd_years = sgn n * (\<bar>n\<bar> div 12), rd_months = sgn n * (\<bar>n\<bar> mod 12)\<rparr>
      else \<lparr>rd_years = 0, rd_months = n\<rparr>)"

text \<open>
  Adding a relativedelta to a timestamp: the year and month are moved, the day is cut
  down to the length of the resulting month, the time of day is kept.
\<close>

definition add_relativedelta :: "timestamp \<Rightarrow> relativedelta \<Rightarrow> timestamp" where
  "add_relativedelta t rd =
     (let year = ts_year t + rd_years rd;
          month = ts_month t;
          (year, month) =
            (if rd_months rd \<noteq> 0
             then (let month = month + rd_months rd in
                   if month > 12 then (year + 1, month - 12)
                   else if month < 1 then (year - 1, month + 12)
                   else (year, month))
             else (year, month));
          day = min (monthrange year month) (ts_day t)
      in t\<lparr>ts_year := year, ts_month := month, ts_day := day\<rparr>)"

definition add_months :: "timestamp \<Rightarrow> int \<Rightarrow> timestamp" where
  "add_months t n = add_relativedelta t (relativedelta_months n)"

section \<open>Configuration\<close>

definition GRACE_DAYS :: int where
  "GRACE_DAYS = 14"

definition PARTICIPANT_ID_COL :: string where
  "PARTICIPANT_ID_COL = ''record_id''"

definition EVENT_NAME_COL :: string where
  "EVENT_NAME_COL = ''event_name''"

definition VISIT_DATE_COL :: string where
  "VISIT_DATE_COL = ''visit_date''"

definition TEST_DATE_COL :: string where
  "TEST_DATE_COL = ''test_date''"

definition STATUS_COL :: string where
  "STATUS_COL = ''participant_status''"

definition ENDPOINT_DATE_1_COL :: string where
  "ENDPOINT_DATE_1_COL = ''primary_endpoint_date''"

definition ENDPOINT_DATE_2_COL :: string where
  "ENDPOINT_DATE_2_COL = ''secondary_endpoint_date''"

definition MISSED_TEST_COUNT_COL :: string where
  "MISSED_TEST_COUNT_COL = ''missed_test_count''"

definition OUTSIDE_WINDOW_COUNT_COL :: string where
  "OUTSIDE_WINDOW_COUNT_COL = ''outside_window_test_count''"

definition TOTAL_DEVIATION_COUNT_COL :: string where
  "TOTAL_DEVIATION_COUNT_COL = ''total_test_deviations''"

definition BASELINE_EVENT_NAME :: string where
  "BASELINE_EVENT_NAME = ''study_baseline''"

definition EXPECTED_FOLLOWUP_SCHEDULE :: "(int \<times> string) list" where
  "EXPECTED_FOLLOWUP_SCHEDULE =
     [(2, ''followup_visit_1''), (4, ''followup_visit_2''), (6, ''followup_visit_3''),
      (8, ''followup_visit_4''), (10, ''followup_visit_5''), (12, ''followup_visit_6''),
      (14, ''followup_visit_7''), (16, ''followup_visit_8''), (18, ''end_of_study_visit'')]"

definition ALL_TEST_EVENT_NAMES :: "string list" where
  "ALL_TEST_EVENT_NAMES = BASELINE_EVENT_NAME # map snd EXPECTED_FOLLOWUP_SCHEDULE"

section \<open>Deviation counts of one participant\<close>

type_synonym performed = "string \<times> string \<Rightarrow> timestamp option"

record counts =
  missed_count :: int
  outside_window_count :: int
  total_deviations :: int

text \<open>
  The horizon (\<open>participant_end_point_date\<close>) of a participant; \<open>None\<close> is the
  source's NaT. The baseline date of a participant that reaches the loop is never NaT
  (only participants with an effective baseline are merged in), so it is a timestamp
  here and the source's guards on a missing baseline date have no branch.
\<close>

definition max_month_offset :: int where
  "max_month_offset =
     (if EXPECTED_FOLLOWUP_SCHEDULE \<noteq> [] then Max (set (map fst EXPECTED_FOLLOWUP_SCHEDULE)) else 0)"

definition participant_end_point_date ::
  "int \<Rightarrow> timestamp \<Rightarrow> timestamp option \<Rightarrow> timestamp option \<Rightarrow> timestamp option" where
  "participant_end_point_date status base_dt endpoint1_dt endpoint2_dt =
     (if status = 1 then Some (add_months base_dt max_month_offset)
      else if status = 2 \<and> endpoint1_dt \<noteq> None then endpoint1_dt
      else if (status = 3 \<or> status = 4) \<and> endpoint2_dt \<noteq> None then endpoint2_dt
      else None)"

text \<open>
  The grace-window test, written twice in the source (for the baseline and inside the
  follow-up loop) with the same text: a missing performed date counts as missed, a
  performed date outside the closed window around the scheduled date counts as outside.
  The pair is (\<open>recalc_missed\<close>, \<open>recalc_outside_window\<close>).
\<close>

definition within_grace :: "timestamp \<Rightarrow> timestamp \<Rightarrow> bool" where
  "within_grace scheduled_date performed_date =
     (let lower_bound = ts_value scheduled_date - timedelta_days GRACE_DAYS;
          upper_bound = ts_value scheduled_date + timedelta_days GRACE_DAYS
      in lower_bound \<le> ts_value performed_date \<and> ts_value performed_date \<le> upper_bound)"

definition check_performed :: "timestamp \<Rightarrow> timestamp option \<Rightarrow> int \<times> int \<Rightarrow> int \<times> int" where
  "check_performed scheduled_date performed_date acc =
     (case performed_date of
        None \<Rightarrow> (fst acc + 1, snd acc)
      | Some p \<Rightarrow> if \<not> within_grace scheduled_date p then (fst acc, snd acc + 1) else acc)"

definition baseline_is_expected :: "int \<Rightarrow> timestamp \<Rightarrow> timestamp option \<Rightarrow> bool" where
  "baseline_is_expected status base_dt end_date =
     (if status = 1 then True
      else case end_date of Some h \<Rightarrow> ts_value base_dt \<le> ts_value h | None \<Rightarrow> False)"

definition check_baseline ::
  "performed \<Rightarrow> string \<Rightarrow> int \<Rightarrow> timestamp \<Rightarrow> timestamp option \<Rightarrow> int \<times> int \<Rightarrow> int \<times> int" where
  "check_baseline pdict pid status base_dt end_date acc =
     (if baseline_is_expected status base_dt end_date
      then check_performed base_dt (pdict (pid, BASELINE_EVENT_NAME)) acc
      else acc)"

definition is_expected :: "int \<Rightarrow> timestamp \<Rightarrow> timestamp option \<Rightarrow> bool" where
  "is_expected status scheduled_date end_date =
     (case end_date of Some h \<Rightarrow> ts_value scheduled_date \<le> ts_value h | None \<Rightarrow> status = 1)"

text \<open>
  One pass of the follow-up loop body, for the schedule entry (month offset, event name).
  The source wraps the month addition in \<open>try\<close>/\<open>except\<close> and skips the entry when
  it raises; month addition is total on the timestamps of this model, so that branch is
  never taken here.
\<close>

definition check_followup ::
  "performed \<Rightarrow> string \<Rightarrow> int \<Rightarrow> timestamp \<Rightarrow> timestamp option \<Rightarrow> int \<times> string
     \<Rightarrow> int \<times> int \<Rightarrow> int \<times> int" where
  "check_followup pdict pid status base_dt end_date entry acc =
     (let scheduled_date = add_months base_dt (fst entry) in
      if is_expected status scheduled_date end_date
      then check_performed scheduled_date (pdict (pid, snd entry)) acc
      else acc)"

fun check_followups ::
  "performed \<Rightarrow> string \<Rightarrow> int \<Rightarrow> timestamp \<Rightarrow> timestamp option \<Rightarrow> (int \<times> string) list
     \<Rightarrow> int \<times> int \<Rightarrow> int \<times> int" where
  "check_followups pdict pid status base_dt end_date [] acc = acc"
| "check_followups pdict pid status base_dt end_date (entry # schedule) acc =
     check_followups pdict pid status base_dt end_date schedule
       (check_followup pdict pid status base_dt end_date entry acc)"

text \<open>The counts of a participant whose horizon has been settled.\<close>

definition count_deviations ::
  "performed \<Rightarrow> string \<Rightarrow> int \<Rightarrow> timestamp \<Rightarrow> timestamp option \<Rightarrow> (int \<times> string) list \<Rightarrow> counts" where
  "count_deviations pdict pid status base_dt end_date schedule =
     (let acc = check_baseline pdict pid status base_dt end_date (0, 0);
          acc = check_followups pdict pid status base_dt end_date schedule acc
      in \<lparr>missed_count = fst acc, outside_window_count = snd acc,
          total_deviations = fst acc + snd acc\<rparr>)"

text \<open>
  The body of the loop over participants: \<open>None\<close> is \<open>continue\<close> (nothing is stored
  for the participant).
\<close>

definition participant_counts ::
  "performed \<Rightarrow> string \<Rightarrow> int option \<Rightarrow> timestamp \<Rightarrow> timestamp option \<Rightarrow> timestamp option
     \<Rightarrow> counts option" where
  "participant_counts pdict pid status_cell base_dt endpoint1_dt endpoint2_dt =
     (case status_cell of
        None \<Rightarrow> None
      | Some status \<Rightarrow>
          (let end_date = participant_end_point_date status base_dt endpoint1_dt endpoint2_dt in
           if (status = 2 \<or> status = 3 \<or> status = 4) \<and> end_date = None then None
           else Some (count_deviations pdict pid status base_dt end_date
                        EXPECTED_FOLLOWUP_SCHEDULE)))"


section \<open>The table\<close>

text \<open>
  The script works on one table read from a file. Turning the text of a cell into a date
  or a number is done by the data-frame library with \<open>errors="coerce"\<close>; a cell of
  the input therefore records what the library's parser makes of its text: nothing
  (a blank cell), text that does not parse, or the parsed value. Identifier, event name
  and the other columns are text, \<open>None\<close> for a blank cell.
\<close>

datatype 'a cell = Blank | Unparseable string | Parsed 'a

record raw_row =
  raw_record_id :: "string option"
  raw_event_name :: "string option"
  raw_test_date :: "timestamp cell"
  raw_visit_date :: "timestamp cell"
  raw_participant_status :: "rat cell"
  raw_primary_endpoint_date :: "timestamp cell"
  raw_secondary_endpoint_date :: "timestamp cell"
  raw_missed_test_count :: "string option"
  raw_outside_window_test_count :: "string option"
  raw_total_test_deviations :: "string option"
  raw_other :: "string list"

text \<open>
  The names of the columns present in the file, and the rows. A field of a row whose
  column is not present is never read.
\<close>

record table =
  columns :: "string list"
  rows :: "raw_row list"

text \<open>A row of the data frame after the type conversions; \<open>None\<close> is NaT or NA.\<close>

record row =
  record_id :: string
  event_name :: string
  test_date :: "timestamp option"
  visit_date :: "timestamp option"
  participant_status :: "int option"
  primary_endpoint_date :: "timestamp option"
  secondary_endpoint_date :: "timestamp option"
  missed_test_count :: "int option"
  outside_window_test_count :: "int option"
  total_test_deviations :: "int option"
  other :: "string list"

text \<open>
  How a run can stop: \<open>sys.exit(1)\<close> after reporting missing columns, an uncaught
  \<open>KeyError\<close> on a column, or the uncaught \<open>TypeError\<close> of the cast of the status
  column to a nullable integer when a number in it is not whole.
\<close>

datatype error = MissingColumns "string list" | KeyError string | CastError

section \<open>Cleaning and type conversion\<close>

text \<open>
  A character of the model is a code point below 256. The white space that
  \<open>str.strip()\<close> removes is, among these, the blank, the controls 0x09 to 0x0D and
  0x1C to 0x1F, the next-line control 0x85 and the no-break space 0xA0.
\<close>

definition is_space :: "char \<Rightarrow> bool" where
  "is_space c = (c \<in> set [CHR '' '', CHR 0x09, CHR 0x0A, CHR 0x0B, CHR 0x0C, CHR 0x0D,
                            CHR 0x1C, CHR 0x1D, CHR 0x1E, CHR 0x1F, CHR 0x85, CHR 0xA0])"

definition strip :: "string \<Rightarrow> string" where
  "strip s = rev (dropWhile is_space (rev (dropWhile is_space s)))"

text \<open>\<open>fillna("").astype(str).str.strip()\<close> on the identifier column.\<close>

definition clean_id :: "string option \<Rightarrow> string" where
  "clean_id c = strip (case c of None \<Rightarrow> [] | Some s \<Rightarrow> s)"

text \<open>Conversion with \<open>errors="coerce"\<close>: what does not parse becomes NaT or NaN.\<close>

definition coerce :: "'a cell \<Rightarrow> 'a option" where
  "coerce c = (case c of Parsed v \<Rightarrow> Some v | _ \<Rightarrow> None)"

definition to_datetime :: "string list \<Rightarrow> string \<Rightarrow> timestamp cell \<Rightarrow> timestamp option" where
  "to_datetime cols col c = (if col \<in> set cols then coerce c else None)"

text \<open>
  \<open>astype("Int64")\<close> on the numbers of the status column: NaN becomes NA, a whole
  number that fits a signed 64-bit integer becomes that integer, and any other number
  (one with a fraction, or one out of that range) makes the cast of the column raise.
\<close>

definition is_whole :: "rat \<Rightarrow> bool" where
  "is_whole q = (of_int \<lfloor>q\<rfloor> = q)"

definition fits_int64 :: "rat \<Rightarrow> bool" where
  "fits_int64 q = (- (2 ^ 63) \<le> q \<and> q < 2 ^ 63)"

definition castable :: "rat cell \<Rightarrow> bool" where
  "castable c = (case coerce c of None \<Rightarrow> True | Some q \<Rightarrow> is_whole q \<and> fits_int64 q)"

definition to_Int64 :: "rat cell \<Rightarrow> int option" where
  "to_Int64 c = map_option floor (coerce c)"

text \<open>\<open>astype(str)\<close> on the event column turns a blank cell into the text \<open>nan\<close>.\<close>

definition event_str :: "string option \<Rightarrow> string" where
  "event_str c = (case c of None \<Rightarrow> ''nan'' | Some s \<Rightarrow> s)"

text \<open>
  One row after cleaning and conversion. The three count columns are created or
  cleared to NA before anything is computed.
\<close>

definition normalize_row :: "string list \<Rightarrow> raw_row \<Rightarrow> row" where
  "normalize_row cols r =
     \<lparr>record_id = clean_id (raw_record_id r),
      event_name = event_str (raw_event_name r),
      test_date = to_datetime cols TEST_DATE_COL (raw_test_date r),
      visit_date = to_datetime cols VISIT_DATE_COL (raw_visit_date r),
      participant_status = to_Int64 (raw_participant_status r),
      primary_endpoint_date = to_datetime cols ENDPOINT_DATE_1_COL (raw_primary_endpoint_date r),
      secondary_endpoint_date = to_datetime cols ENDPOINT_DATE_2_COL (raw_secondary_endpoint_date r),
      missed_test_count = None,
      outside_window_test_count = None,
      total_test_deviations = None,
      other = raw_other r\<rparr>"

text \<open>
  The first part of the script, up to the conversion of the event column. A missing date
  column only prints a warning here.
\<close>

definition prepare :: "table \<Rightarrow> error + row list" where
  "prepare t =
     (if PARTICIPANT_ID_COL \<notin> set (columns t) then Inl (MissingColumns [PARTICIPANT_ID_COL])
      else if STATUS_COL \<notin> set (columns t) then Inl (MissingColumns [STATUS_COL])
      else if \<not> list_all (\<lambda>r. castable (raw_participant_status r)) (rows t) then Inl CastError
      else if EVENT_NAME_COL \<notin> set (columns t) then Inl (MissingColumns [EVENT_NAME_COL])
      else Inr (map (normalize_row (columns t)) (rows t)))"

section \<open>Baselines, participants and the index of performed tests\<close>

text \<open>\<open>drop_duplicates(subset, keep="first")\<close>, the subset given as a key function.\<close>

fun drop_duplicates :: "('a \<Rightarrow> 'k) \<Rightarrow> 'a list \<Rightarrow> 'a list" where
  "drop_duplicates key [] = []"
| "drop_duplicates key (x # xs) = x # drop_duplicates key (filter (\<lambda>y. key y \<noteq> key x) xs)"

definition is_baseline_row :: "row \<Rightarrow> bool" where
  "is_baseline_row r = (event_name r = BASELINE_EVENT_NAME \<and> record_id r \<noteq> [])"

text \<open>
  The baseline rows, sorted by identifier, one per participant. The sort on a single
  column uses the library's default algorithm, which does not promise to keep rows of
  the same identifier in their order: which of several baseline rows of a participant
  comes first after the sort is the library's choice. The sort is therefore a parameter
  \<open>srt\<close> of the model, and \<open>sorts_by record_id srt\<close> says what is known of it: the
  result has the same rows and is in ascending order of the identifier (identifiers are
  compared as Python compares strings, character by character).
\<close>

definition sorts_by :: "('a \<Rightarrow> 'k::linorder) \<Rightarrow> ('a list \<Rightarrow> 'a list) \<Rightarrow> bool" where
  "sorts_by key srt \<longleftrightarrow> (\<forall>xs. mset (srt xs) = mset xs \<and> sorted (map key (srt xs)))"

definition baseline_event_rows :: "(row list \<Rightarrow> row list) \<Rightarrow> row list \<Rightarrow> row list" where
  "baseline_event_rows srt df =
     drop_duplicates record_id (srt (filter is_baseline_row df))"

text \<open>
  The anchor date of a baseline row: the test date, else the visit date, according to
  which of the two columns exist (the case that neither exists stops the run before).
\<close>

definition effective_baseline :: "string list \<Rightarrow> row \<Rightarrow> timestamp option" where
  "effective_baseline cols r =
     (if TEST_DATE_COL \<in> set cols \<and> VISIT_DATE_COL \<in> set cols
      then (case test_date r of Some d \<Rightarrow> Some d | None \<Rightarrow> visit_date r)
      else if TEST_DATE_COL \<in> set cols then test_date r
      else visit_date r)"

definition final_baselines ::
  "(row list \<Rightarrow> row list) \<Rightarrow> string list \<Rightarrow> row list \<Rightarrow> (string \<times> timestamp) list" where
  "final_baselines srt cols df =
     List.map_filter (\<lambda>r. map_option (Pair (record_id r)) (effective_baseline cols r))
       (baseline_event_rows srt df)"

text \<open>Status and endpoint dates come from the first baseline row of a participant.\<close>

definition pinfo_raw :: "row list \<Rightarrow> row list" where
  "pinfo_raw df = drop_duplicates record_id (filter is_baseline_row df)"

definition valid_statuses_for_calc :: "int list" where
  "valid_statuses_for_calc = [1, 2, 3, 4]"

text \<open>
  The inner merge with the effective baselines: a participant is its first baseline row
  paired with its effective baseline. Then the filter on the status.
\<close>

definition merged_participants ::
  "row list \<Rightarrow> (string \<times> timestamp) list \<Rightarrow> (row \<times> timestamp) list" where
  "merged_participants df baselines =
     List.map_filter (\<lambda>r. map_option (Pair r) (map_of baselines (record_id r))) (pinfo_raw df)"

definition participants_for_recalc ::
  "row list \<Rightarrow> (string \<times> timestamp) list \<Rightarrow> (row \<times> timestamp) list" where
  "participants_for_recalc df baselines =
     filter (\<lambda>p. case participant_status (fst p) of
                    None \<Rightarrow> False | Some s \<Rightarrow> s \<in> set valid_statuses_for_calc)
       (merged_participants df baselines)"

text \<open>
  The rows that enter the index of performed tests are sorted by identifier, event name
  and test date (the library's sort on several columns is stable) and the first row of each pair
  (identifier, event name) is kept. In the sort key of a date column NaT is placed last.
\<close>

definition na_last :: "timestamp option \<Rightarrow> nat \<times> int" where
  "na_last d = (case d of Some v \<Rightarrow> (0, ts_value v) | None \<Rightarrow> (1, 0))"

definition is_performed_row :: "row \<Rightarrow> bool" where
  "is_performed_row r =
     (event_name r \<in> set ALL_TEST_EVENT_NAMES \<and> test_date r \<noteq> None \<and> record_id r \<noteq> [])"

definition performed_tests_df :: "row list \<Rightarrow> row list" where
  "performed_tests_df df =
     drop_duplicates (\<lambda>r. (record_id r, event_name r))
       (sort_key (\<lambda>r. (record_id r, event_name r, na_last (test_date r)))
          (filter is_performed_row df))"

text \<open>A dictionary built by a comprehension: a later pair replaces an earlier one.\<close>

definition dict_of :: "('k \<times> 'v) list \<Rightarrow> ('k \<Rightarrow> 'v option)" where
  "dict_of kvs = fold (\<lambda>kv m. m(fst kv \<mapsto> snd kv)) kvs Map.empty"

definition performed_dict :: "row list \<Rightarrow> performed" where
  "performed_dict df =
     dict_of (List.map_filter
                (\<lambda>r. map_option (Pair (record_id r, event_name r)) (test_date r))
                (performed_tests_df df))"

section \<open>The loop over participants and the write-back\<close>

text \<open>
  \<open>calculated_counts\<close>: a dictionary in insertion order, filled by the loop over the
  participants.
\<close>

definition store_counts ::
  "performed \<Rightarrow> row \<times> timestamp \<Rightarrow> (string \<times> counts) list \<Rightarrow> (string \<times> counts) list" where
  "store_counts pdict p acc =
     (case participant_counts pdict (record_id (fst p)) (participant_status (fst p))
             (snd p) (primary_endpoint_date (fst p)) (secondary_endpoint_date (fst p)) of
        None \<Rightarrow> acc
      | Some c \<Rightarrow> AList.update (record_id (fst p)) c acc)"

definition calculated_counts ::
  "performed \<Rightarrow> (row \<times> timestamp) list \<Rightarrow> (string \<times> counts) list" where
  "calculated_counts pdict participants = fold (store_counts pdict) participants []"

text \<open>The first position of a row that satisfies a condition (\<open>target_indices[0]\<close>).\<close>

fun first_index :: "('a \<Rightarrow> bool) \<Rightarrow> 'a list \<Rightarrow> nat option" where
  "first_index P [] = None"
| "first_index P (x # xs) = (if P x then Some 0 else map_option Suc (first_index P xs))"

definition set_counts :: "counts \<Rightarrow> row \<Rightarrow> row" where
  "set_counts c r =
     r\<lparr>missed_test_count := Some (missed_count c),
       outside_window_test_count := Some (outside_window_count c),
       total_test_deviations := Some (total_deviations c)\<rparr>"

definition clear_counts :: "row \<Rightarrow> row" where
  "clear_counts r =
     r\<lparr>missed_test_count := None, outside_window_test_count := None,
       total_test_deviations := None\<rparr>"

definition write_one :: "string \<times> counts \<Rightarrow> row list \<Rightarrow> row list" where
  "write_one item df =
     (case first_index (\<lambda>r. record_id r = fst item \<and> event_name r = BASELINE_EVENT_NAME) df of
        None \<Rightarrow> df
      | Some idx \<Rightarrow> df[idx := set_counts (snd item) (df ! idx)])"

definition write_counts :: "(string \<times> counts) list \<Rightarrow> row list \<Rightarrow> row list" where
  "write_counts items df = fold write_one items df"

text \<open>Participants with status 5 on a baseline row: every row of theirs is blanked.\<close>

definition excluded_status_code :: int where
  "excluded_status_code = 5"

definition excluded_pids :: "row list \<Rightarrow> string list" where
  "excluded_pids df =
     drop_duplicates (\<lambda>p. p)
       (map record_id
          (filter (\<lambda>r. (case participant_status r of None \<Rightarrow> - 1 | Some s \<Rightarrow> s) = excluded_status_code)
             (filter is_baseline_row df)))"

definition blank_excluded :: "row list \<Rightarrow> row list" where
  "blank_excluded df =
     (let pids = excluded_pids df in
      if pids \<noteq> [] then map (\<lambda>r. if record_id r \<in> set pids then clear_counts r else r) df
      else df)"

section \<open>The whole run\<close>

text \<open>The per-participant records computed from the converted table.\<close>

definition deviation_records ::
  "(row list \<Rightarrow> row list) \<Rightarrow> string list \<Rightarrow> row list \<Rightarrow> (string \<times> counts) list" where
  "deviation_records srt cols df =
     calculated_counts (performed_dict df)
       (participants_for_recalc df (final_baselines srt cols df))"

text \<open>
  The script from the loaded table to the table it saves, for a given behaviour \<open>srt\<close>
  of the single-column sort. Reading and writing files, the console report and the
  comparison with the counts found in the input are left out.
\<close>

definition run :: "(row list \<Rightarrow> row list) \<Rightarrow> table \<Rightarrow> error + row list" where
  "run srt t =
     (case prepare t of
        Inl e \<Rightarrow> Inl e
      | Inr df \<Rightarrow>
          if TEST_DATE_COL \<notin> set (columns t) \<and> VISIT_DATE_COL \<notin> set (columns t)
          then Inl (MissingColumns [TEST_DATE_COL, VISIT_DATE_COL])
          else if TEST_DATE_COL \<notin> set (columns t) then Inl (KeyError TEST_DATE_COL)
          else Inr (blank_excluded (write_counts (deviation_records srt (columns t) df) df)))"

section \<open>Proof invariant and example data\<close>

text \<open>
  What the write-back can have done to a table \<open>df0\<close> whose count columns were blank,
  when the items written so far are in \<open>S\<close>: every row is either untouched or it is the
  first baseline row of its participant and carries the counts of an item of \<open>S\<close>.
\<close>

definition written :: "(string \<times> counts) set \<Rightarrow> row list \<Rightarrow> row list \<Rightarrow> bool" where
  "written S df0 df \<longleftrightarrow>
     length df = length df0 \<and>
     (\<forall>i<length df0. df ! i = df0 ! i \<or>
        (\<exists>c. (record_id (df0 ! i), c) \<in> S
           \<and> first_index (\<lambda>r. record_id r = record_id (df0 ! i) \<and> event_name r = BASELINE_EVENT_NAME) df0
               = Some i
           \<and> df ! i = set_counts c (df0 ! i)))"

text \<open>Shorthands for writing down concrete tables.\<close>

definition day :: "int \<Rightarrow> int \<Rightarrow> int \<Rightarrow> timestamp" where
  "day y m d = \<lparr>ts_year = y, ts_month = m, ts_day = d, ts_nanos = 0\<rparr>"

definition all_columns :: "string list" where
  "all_columns = [PARTICIPANT_ID_COL, EVENT_NAME_COL, VISIT_DATE_COL, TEST_DATE_COL, STATUS_COL,
     ENDPOINT_DATE_1_COL, ENDPOINT_DATE_2_COL]"

definition raw :: "string \<Rightarrow> string \<Rightarrow> timestamp cell \<Rightarrow> rat cell \<Rightarrow> raw_row" where
  "raw pid ev d st =
     \<lparr>raw_record_id = Some pid, raw_event_name = Some ev, raw_test_date = d, raw_visit_date = Blank,
      raw_participant_status = st, raw_primary_endpoint_date = Blank,
      raw_secondary_endpoint_date = Blank, raw_missed_test_count = None,
      raw_outside_window_test_count = None, raw_total_test_deviations = None, raw_other = []\<rparr>"

definition converted :: "string \<Rightarrow> string \<Rightarrow> timestamp option \<Rightarrow> int option \<Rightarrow> row" where
  "converted pid ev d st =
     \<lparr>record_id = pid, event_name = ev, test_date = d, visit_date = None,
      participant_status = st, primary_endpoint_date = None, secondary_endpoint_date = None,
      missed_test_count = None, outside_window_test_count = None,
      total_test_deviations = None, other = []\<rparr>"

text \<open>
  Participant P1 with status 1, baseline on 2022-01-01, and the first follow-up (due on
  2022-03-01) performed on 2022-03-20; the identifier of the baseline row has a leading
  blank in the file.
\<close>

definition example_table :: table where
  "example_table = \<lparr>columns = all_columns,
     rows = [raw '' P1'' ''study_baseline'' (Parsed (day 2022 1 1)) (Parsed 1),
             raw ''P1'' ''followup_visit_1'' (Parsed (day 2022 3 20)) Blank]\<rparr>"

definition example_rows :: "row list" where
  "example_rows =
     [converted ''P1'' ''study_baseline'' (Some (day 2022 1 1)) (Some 1),
      converted ''P1'' ''followup_visit_1'' (Some (day 2022 3 20)) None]"

definition example_output :: "row list" where
  "example_output =
     [set_counts \<lparr>missed_count = 8, outside_window_count = 1, total_deviations = 9\<rparr>
        (converted ''P1'' ''study_baseline'' (Some (day 2022 1 1)) (Some 1)),
      converted ''P1'' ''followup_visit_1'' (Some (day 2022 3 20)) None]"

text \<open>Participant P5 with status 5 on the baseline row.\<close>

definition excluded_table :: table where
  "excluded_table = \<lparr>columns = all_columns,
     rows = [raw ''P5'' ''study_baseline'' (Parsed (day 2022 1 1)) (Parsed 5),
             raw ''P5'' ''followup_visit_1'' (Parsed (day 2022 3 1)) Blank]\<rparr>"

definition excluded_output :: "row list" where
  "excluded_output =
     [converted ''P5'' ''study_baseline'' (Some (day 2022 1 1)) (Some 5),
      converted ''P5'' ''followup_visit_1'' (Some (day 2022 3 1)) None]"

text \<open>A table without the visit-date and endpoint-date columns.\<close>

definition narrow_table :: table where
  "narrow_table = \<lparr>columns = [PARTICIPANT_ID_COL, EVENT_NAME_COL, TEST_DATE_COL, STATUS_COL],
     rows = [raw ''P1'' ''study_baseline'' (Parsed (day 2022 1 1)) (Parsed 1)]\<rparr>"

text \<open>A table without the identifier column, and one whose cells are malformed.\<close>

definition headless_table :: table where
  "headless_table = \<lparr>columns = [EVENT_NAME_COL, TEST_DATE_COL, STATUS_COL],
     rows = [raw ''P1'' ''study_baseline'' (Parsed (day 2022 1 1)) (Parsed 1)]\<rparr>"

definition malformed_table :: table where
  "malformed_table = \<lparr>columns = all_columns,
     rows = [(raw [] ''study_baseline'' (Unparseable ''n/a'') (Unparseable ''active''))
               \<lparr>raw_record_id := None\<rparr>,
             raw ''P1'' ''study_baseline'' (Unparseable ''31-31-2022'') (Unparseable ''x'')]\<rparr>"

text \<open>
  The example table as a second run finds it: the count columns exist and hold text.
\<close>

definition rerun_table :: table where
  "rerun_table = \<lparr>columns = all_columns @ [MISSED_TEST_COUNT_COL, OUTSIDE_WINDOW_COUNT_COL,
       TOTAL_DEVIATION_COUNT_COL],
     rows = [(raw '' P1'' ''study_baseline'' (Parsed (day 2022 1 1)) (Parsed 1))
               \<lparr>raw_missed_test_count := Some ''3'', raw_outside_window_test_count := Some ''0'',
                raw_total_test_deviations := Some ''3''\<rparr>,
             (raw ''P1'' ''followup_visit_1'' (Parsed (day 2022 3 20)) Blank)
               \<lparr>raw_missed_test_count := Some ''7''\<rparr>]\<rparr>"

text \<open>Two rows of the same follow-up, the later date first, and a row of an untracked event.\<close>

definition duplicate_rows :: "row list" where
  "duplicate_rows =
     [converted ''P1'' ''followup_visit_1'' (Some (day 2022 3 20)) None,
      converted ''P1'' ''followup_visit_1'' (Some (day 2022 3 5)) None,
      converted ''P1'' ''unscheduled_visit'' (Some (day 2022 4 1)) None]"

section \<open>The time line\<close>

text \<open>The day number counts consecutive calendar days, across months and years.\<close>

lemma div_step:
  fixes y k :: int
  assumes "0 < k"
  shows "y div k = (y - 1) div k + (if y mod k = 0 then 1 else 0)"
proof -
  define q where "q = (y - 1) div k"
  define r where "r = (y - 1) mod k"
  have r: "0 \<le> r" "r < k" using assms by (simp_all add: r_def)
  have e: "y = k * q + (r + 1)"
    using mult_div_mod_eq [of k "y - 1"] by (simp add: q_def r_def)
  show ?thesis
  proof (cases "r + 1 = k")
    case True
    with e have "y = k * (q + 1)" by (simp add: algebra_simps)
    with assms have "y div k = q + 1" "y mod k = 0" by simp_all
    then show ?thesis by (simp add: q_def)
  next
    case False
    with r have s: "0 \<le> r + 1" "r + 1 < k" by simp_all
    have "y div k = q + (r + 1) div k" using assms by (subst e) simp
    with s have d: "y div k = q" by simp
    have "y mod k = (r + 1) mod k" by (subst e) simp
    with s have "y mod k = r + 1" by simp
    with r have "y mod k \<noteq> 0" by simp
    with d show ?thesis by (simp add: q_def)
  qed
qed

lemma days_before_year_Suc:
  "days_before_year (y + 1) = days_before_year y + (if isleap y then 366 else 365)"
proof -
  define A where "A = (y - 1) div 4"
  define B where "B = (y - 1) div 100"
  define C where "C = (y - 1) div 400"
  define a :: int where "a = (if y mod 4 = 0 then 1 else 0)"
  define b :: int where "b = (if y mod 100 = 0 then 1 else 0)"
  define c :: int where "c = (if y mod 400 = 0 then 1 else 0)"
  have da: "y div 4 = A + a" unfolding A_def a_def by (rule div_step) simp
  have db: "y div 100 = B + b" unfolding B_def b_def by (rule div_step) simp
  have dc: "y div 400 = C + c" unfolding C_def c_def by (rule div_step) simp
  have g: "days_before_year (y + 1) = y * 365 + (A + a) - (B + b) + (C + c)"
    by (simp add: days_before_year_def da db dc)
  have h: "days_before_year y = (y - 1) * 365 + A - B + C"
    by (simp only: days_before_year_def A_def B_def C_def)
  have l: "(if isleap y then 366 else 365) = 365 + a - b + c"
  proof -
    have d1: "y mod 100 = 0" if "y mod 400 = 0"
    proof -
      from that have "(400::int) dvd y" by (simp only: dvd_eq_mod_eq_0)
      moreover have "(100::int) dvd 400" by simp
      ultimately have "(100::int) dvd y" by (rule dvd_trans [rotated])
      then show ?thesis by (simp only: dvd_eq_mod_eq_0)
    qed
    have d2: "y mod 4 = 0" if "y mod 100 = 0"
    proof -
      from that have "(100::int) dvd y" by (simp only: dvd_eq_mod_eq_0)
      moreover have "(4::int) dvd 100" by simp
      ultimately have "(4::int) dvd y" by (rule dvd_trans [rotated])
      then show ?thesis by (simp only: dvd_eq_mod_eq_0)
    qed
    define p4 where "p4 \<longleftrightarrow> y mod 4 = 0"
    define p100 where "p100 \<longleftrightarrow> y mod 100 = 0"
    define p400 where "p400 \<longleftrightarrow> y mod 400 = 0"
    from d1 d2 have i: "p400 \<Longrightarrow> p100" "p100 \<Longrightarrow> p4" by (simp_all only: p4_def p100_def p400_def)
    have "(if p4 \<and> (\<not> p100 \<or> p400) then 366 else 365)
        = 365 + (if p4 then 1 else 0) - (if p100 then 1 else 0) + (if p400 then 1 else (0::int))"
      using i by (cases p4; cases p100; cases p400) simp_all
    then show ?thesis by (simp only: isleap_def a_def b_def c_def p4_def p100_def p400_def)
  qed
  show ?thesis unfolding g h l by simp
qed

lemma days_before_month_Suc:
  assumes "1 \<le> m" "m < 12"
  shows "days_before_month y (m + 1) = days_before_month y m + monthrange y m"
proof -
  from assms have "m = 1 \<or> m = 2 \<or> m = 3 \<or> m = 4 \<or> m = 5 \<or> m = 6 \<or> m = 7 \<or> m = 8 \<or> m = 9
    \<or> m = 10 \<or> m = 11" by arith
  then show ?thesis
    by (elim disjE) (simp_all add: days_before_month_def monthrange_def)
qed

lemma toordinal_next_day: "toordinal (t\<lparr>ts_day := ts_day t + 1\<rparr>) = toordinal t + 1"
  by (simp add: toordinal_def)

lemma toordinal_next_month:
  assumes "1 \<le> ts_month t" "ts_month t < 12"
  shows "toordinal (t\<lparr>ts_month := ts_month t + 1, ts_day := 1\<rparr>)
       = toordinal (t\<lparr>ts_day := monthrange (ts_year t) (ts_month t)\<rparr>) + 1"
  using days_before_month_Suc [OF assms, of "ts_year t"] by (simp add: toordinal_def)

lemma toordinal_next_year:
  "toordinal (t\<lparr>ts_year := ts_year t + 1, ts_month := 1, ts_day := 1\<rparr>)
       = toordinal (t\<lparr>ts_month := 12, ts_day := 31\<rparr>) + 1"
  by (simp add: toordinal_def days_before_year_Suc days_before_month_def)

lemma ts_value_epoch: "ts_value (day 1970 1 1) = 0"
  by (simp add: day_def ts_value_def toordinal_def days_before_year_def days_before_month_def)

lemma ts_value_fortnight: "ts_value (day 2022 3 15) = ts_value (day 2022 3 1) + timedelta_days 14"
  by (simp add: day_def ts_value_def toordinal_def days_before_year_def days_before_month_def
      timedelta_days_def isleap_def)

lemma ts_value_leap_day: "ts_value (day 2024 3 1) = ts_value (day 2024 2 28) + timedelta_days 2"
  by (simp add: day_def ts_value_def toordinal_def days_before_year_def days_before_month_def
      timedelta_days_def isleap_def)

section \<open>Month arithmetic\<close>

lemma relativedelta_months_nonneg:
  "0 \<le> n \<Longrightarrow> relativedelta_months n = \<lparr>rd_years = n div 12, rd_months = n mod 12\<rparr>"
proof -
  assume n: "0 \<le> n"
  show ?thesis
  proof (cases "n > 11")
    case True
    then have "sgn n = 1" by simp
    with True n show ?thesis by (simp add: relativedelta_months_def)
  next
    case False
    with n have "n div 12 = 0" "n mod 12 = n" by simp_all
    with False n show ?thesis by (simp add: relativedelta_months_def)
  qed
qed

lemma add_relativedelta_fields:
  fixes t :: timestamp and k q :: int
  assumes "1 \<le> ts_month t" "ts_month t \<le> 12" "0 \<le> k" "k < 12"
  defines "r \<equiv> add_relativedelta t \<lparr>rd_years = q, rd_months = k\<rparr>"
  shows "12 * ts_year r + ts_month r = 12 * ts_year t + ts_month t + (12 * q + k)"
    and "1 \<le> ts_month r" and "ts_month r \<le> 12"
    and "ts_day r = min (monthrange (ts_year r) (ts_month r)) (ts_day t)"
    and "ts_nanos r = ts_nanos t"
proof -
  consider (z) "k = 0" | (a) "k \<noteq> 0" "ts_month t + k > 12" | (b) "k \<noteq> 0" "ts_month t + k \<le> 12"
    by linarith
  then have "(12 * ts_year r + ts_month r = 12 * ts_year t + ts_month t + (12 * q + k))
     \<and> 1 \<le> ts_month r \<and> ts_month r \<le> 12
     \<and> ts_day r = min (monthrange (ts_year r) (ts_month r)) (ts_day t)
     \<and> ts_nanos r = ts_nanos t"
  proof cases
    case z
    with assms(1,2) show ?thesis by (simp add: r_def add_relativedelta_def Let_def)
  next
    case a
    with assms(1-4) show ?thesis by (simp add: r_def add_relativedelta_def Let_def)
  next
    case b
    with assms(1-4) show ?thesis by (simp add: r_def add_relativedelta_def Let_def)
  qed
  then show "12 * ts_year r + ts_month r = 12 * ts_year t + ts_month t + (12 * q + k)"
    and "1 \<le> ts_month r" and "ts_month r \<le> 12"
    and "ts_day r = min (monthrange (ts_year r) (ts_month r)) (ts_day t)"
    and "ts_nanos r = ts_nanos t" by simp_all
qed

lemma add_months_valid:
  assumes "valid_ts t" "0 \<le> n"
  shows "valid_ts (add_months t n)"
proof -
  from assms(1) have m: "1 \<le> ts_month t" "ts_month t \<le> 12" and d: "1 \<le> ts_day t"
    and ns: "0 \<le> ts_nanos t" "ts_nanos t < 86400000000000"
    by (simp_all add: valid_ts_def)
  have rd: "add_months t n = add_relativedelta t \<lparr>rd_years = n div 12, rd_months = n mod 12\<rparr>"
    using assms(2) by (simp add: add_months_def relativedelta_months_nonneg)
  have k: "0 \<le> n mod 12" "n mod 12 < 12" by simp_all
  note f = add_relativedelta_fields [OF m k, of "n div 12", folded rd]
  have "1 \<le> monthrange y k" for y k by (simp add: monthrange_def)
  with f d ns show ?thesis by (simp add: valid_ts_def)
qed

text \<open>
  Claim C9. Adding a non-negative number of months to a date moves the year and month by
  exactly that many months, keeps the time of day, and keeps the day of the month unless
  the target month is shorter, in which case the day is the last day of that month.
  In particular 2023-01-31 plus one month is 2023-02-28, and 2024-01-31 plus one month
  is 2024-02-29: the result is a date, and it does not roll over into March.
\<close>

theorem add_months_clamps_day:
  "(\<forall>t n. 1 \<le> ts_month t \<and> ts_month t \<le> 12 \<and> 0 \<le> n \<longrightarrow>
      12 * ts_year (add_months t n) + ts_month (add_months t n) = 12 * ts_year t + ts_month t + n
    \<and> 1 \<le> ts_month (add_months t n) \<and> ts_month (add_months t n) \<le> 12
    \<and> ts_day (add_months t n)
        = min (monthrange (ts_year (add_months t n)) (ts_month (add_months t n))) (ts_day t)
    \<and> ts_nanos (add_months t n) = ts_nanos t)
  \<and> add_months \<lparr>ts_year = 2023, ts_month = 1, ts_day = 31, ts_nanos = 0\<rparr> 1
      = \<lparr>ts_year = 2023, ts_month = 2, ts_day = 28, ts_nanos = 0\<rparr>
  \<and> add_months \<lparr>ts_year = 2024, ts_month = 1, ts_day = 31, ts_nanos = 0\<rparr> 1
      = \<lparr>ts_year = 2024, ts_month = 2, ts_day = 29, ts_nanos = 0\<rparr>"
proof (intro conjI allI impI)
  fix t :: timestamp and n :: int
  assume h: "1 \<le> ts_month t \<and> ts_month t \<le> 12 \<and> 0 \<le> n"
  then have rd: "add_months t n = add_relativedelta t \<lparr>rd_years = n div 12, rd_months = n mod 12\<rparr>"
    by (simp add: add_months_def relativedelta_months_nonneg)
  have k: "0 \<le> n mod 12" "n mod 12 < 12" by simp_all
  note f = add_relativedelta_fields [of t "n mod 12" "n div 12", folded rd]
  from h k show "12 * ts_year (add_months t n) + ts_month (add_months t n) = 12 * ts_year t + ts_month t + n"
    using f(1) by simp
  from h k show "1 \<le> ts_month (add_months t n)" using f(2) by simp
  from h k show "ts_month (add_months t n) \<le> 12" using f(3) by simp
  from h k show "ts_day (add_months t n)
        = min (monthrange (ts_year (add_months t n)) (ts_month (add_months t n))) (ts_day t)"
    using f(4) by simp
  from h k show "ts_nanos (add_months t n) = ts_nanos t" using f(5) by simp
next
  show "add_months \<lparr>ts_year = 2023, ts_month = 1, ts_day = 31, ts_nanos = 0\<rparr> 1
      = \<lparr>ts_year = 2023, ts_month = 2, ts_day = 28, ts_nanos = 0\<rparr>"
    by (simp add: add_months_def relativedelta_months_def add_relativedelta_def monthrange_def isleap_def)
next
  show "add_months \<lparr>ts_year = 2024, ts_month = 1, ts_day = 31, ts_nanos = 0\<rparr> 1
      = \<lparr>ts_year = 2024, ts_month = 2, ts_day = 29, ts_nanos = 0\<rparr>"
    by (simp add: add_months_def relativedelta_months_def add_relativedelta_def monthrange_def isleap_def)
qed

theorem add_months_clamps_day_witness:
  "12 * ts_year (add_months \<lparr>ts_year = 2024, ts_month = 8, ts_day = 31, ts_nanos = 7\<rparr> 18)
     + ts_month (add_months \<lparr>ts_year = 2024, ts_month = 8, ts_day = 31, ts_nanos = 7\<rparr> 18)
     = 12 * 2024 + 8 + 18
   \<and> add_months \<lparr>ts_year = 2024, ts_month = 8, ts_day = 31, ts_nanos = 7\<rparr> 18
     = \<lparr>ts_year = 2026, ts_month = 2, ts_day = 28, ts_nanos = 7\<rparr>"
  using add_months_clamps_day [THEN conjunct1, rule_format,
      of "\<lparr>ts_year = 2024, ts_month = 8, ts_day = 31, ts_nanos = 7\<rparr>" 18]
  by (simp add: add_months_def relativedelta_months_def add_relativedelta_def monthrange_def isleap_def)

section \<open>Classification of one expected test\<close>

lemma check_performed_Some:
  "check_performed s (Some p) acc =
     (if ts_value s - 14 * nanos_per_day \<le> ts_value p \<and> ts_value p \<le> ts_value s + 14 * nanos_per_day
      then acc else (fst acc, snd acc + 1))"
  by (simp add: check_performed_def within_grace_def GRACE_DAYS_def timedelta_days_def Let_def)

lemma check_performed_cases:
  "check_performed s p acc = acc \<or> check_performed s p acc = (fst acc + 1, snd acc)
     \<or> check_performed s p acc = (fst acc, snd acc + 1)"
  by (cases p) (simp_all add: check_performed_def)

lemma check_baseline_cases:
  "check_baseline d pid st b e acc = acc \<or> check_baseline d pid st b e acc = (fst acc + 1, snd acc)
     \<or> check_baseline d pid st b e acc = (fst acc, snd acc + 1)"
  using check_performed_cases [of b "d (pid, BASELINE_EVENT_NAME)" acc]
  by (simp add: check_baseline_def)

lemma check_followup_cases:
  "check_followup d pid st b e entry acc = acc
     \<or> check_followup d pid st b e entry acc = (fst acc + 1, snd acc)
     \<or> check_followup d pid st b e entry acc = (fst acc, snd acc + 1)"
  using check_performed_cases [of "add_months b (fst entry)" "d (pid, snd entry)" acc]
  by (simp add: check_followup_def Let_def)

lemma check_followups_bounds:
  "fst acc \<le> fst (check_followups d pid st b e schedule acc)
   \<and> snd acc \<le> snd (check_followups d pid st b e schedule acc)
   \<and> fst (check_followups d pid st b e schedule acc) + snd (check_followups d pid st b e schedule acc)
       \<le> fst acc + snd acc + int (length schedule)"
proof (induction schedule arbitrary: acc)
  case Nil
  show ?case by simp
next
  case (Cons entry schedule)
  from check_followup_cases [of d pid st b e entry acc] Cons [of "check_followup d pid st b e entry acc"]
  show ?case by auto
qed

text \<open>
  Claim C2. An expected test, baseline or follow-up, whose performed date is in the index
  leaves the counters unchanged (on time) exactly when the performed date lies in the
  closed window from 14 days before to 14 days after the scheduled date; otherwise it
  adds one to the outside-window counter. A performed date exactly 14 days early or late
  is on time, one exactly 15 days early or late is outside the window.
\<close>

theorem grace_window_inclusive:
  "(baseline_is_expected status base_dt end_date \<and> pdict (pid, BASELINE_EVENT_NAME) = Some p \<longrightarrow>
      check_baseline pdict pid status base_dt end_date acc =
        (if ts_value base_dt - 14 * nanos_per_day \<le> ts_value p
            \<and> ts_value p \<le> ts_value base_dt + 14 * nanos_per_day
         then acc else (fst acc, snd acc + 1)))
   \<and> (is_expected status (add_months base_dt (fst entry)) end_date
        \<and> pdict (pid, snd entry) = Some p \<longrightarrow>
      check_followup pdict pid status base_dt end_date entry acc =
        (if ts_value (add_months base_dt (fst entry)) - 14 * nanos_per_day \<le> ts_value p
            \<and> ts_value p \<le> ts_value (add_months base_dt (fst entry)) + 14 * nanos_per_day
         then acc else (fst acc, snd acc + 1)))
   \<and> GRACE_DAYS = 14
   \<and> (ts_value p = ts_value s - 14 * nanos_per_day \<or> ts_value p = ts_value s + 14 * nanos_per_day \<longrightarrow>
        check_performed s (Some p) acc = acc)
   \<and> (ts_value p = ts_value s - 15 * nanos_per_day \<or> ts_value p = ts_value s + 15 * nanos_per_day \<longrightarrow>
        check_performed s (Some p) acc = (fst acc, snd acc + 1))"
proof (intro conjI impI)
  assume "baseline_is_expected status base_dt end_date \<and> pdict (pid, BASELINE_EVENT_NAME) = Some p"
  then show "check_baseline pdict pid status base_dt end_date acc =
        (if ts_value base_dt - 14 * nanos_per_day \<le> ts_value p
            \<and> ts_value p \<le> ts_value base_dt + 14 * nanos_per_day
         then acc else (fst acc, snd acc + 1))"
    by (simp add: check_baseline_def check_performed_Some)
next
  assume "is_expected status (add_months base_dt (fst entry)) end_date
        \<and> pdict (pid, snd entry) = Some p"
  then show "check_followup pdict pid status base_dt end_date entry acc =
        (if ts_value (add_months base_dt (fst entry)) - 14 * nanos_per_day \<le> ts_value p
            \<and> ts_value p \<le> ts_value (add_months base_dt (fst entry)) + 14 * nanos_per_day
         then acc else (fst acc, snd acc + 1))"
    by (simp add: check_followup_def check_performed_Some Let_def)
next
  show "GRACE_DAYS = 14" by (simp add: GRACE_DAYS_def)
next
  assume "ts_value p = ts_value s - 14 * nanos_per_day \<or> ts_value p = ts_value s + 14 * nanos_per_day"
  then show "check_performed s (Some p) acc = acc"
    by (auto simp add: check_performed_Some nanos_per_day_def)
next
  assume "ts_value p = ts_value s - 15 * nanos_per_day \<or> ts_value p = ts_value s + 15 * nanos_per_day"
  then show "check_performed s (Some p) acc = (fst acc, snd acc + 1)"
    by (auto simp add: check_performed_Some nanos_per_day_def)
qed

theorem grace_window_inclusive_witness:
  "check_baseline (\<lambda>k. if k = (''P1'', BASELINE_EVENT_NAME)
                         then Some \<lparr>ts_year = 2022, ts_month = 1, ts_day = 15, ts_nanos = 0\<rparr> else None)
     ''P1'' 1 \<lparr>ts_year = 2022, ts_month = 1, ts_day = 1, ts_nanos = 0\<rparr> None (0, 0) = (0, 0)
   \<and> check_followup (\<lambda>k. if k = (''P1'', ''followup_visit_1'')
                         then Some \<lparr>ts_year = 2022, ts_month = 3, ts_day = 16, ts_nanos = 0\<rparr> else None)
     ''P1'' 1 \<lparr>ts_year = 2022, ts_month = 1, ts_day = 1, ts_nanos = 0\<rparr>
     (Some \<lparr>ts_year = 2023, ts_month = 7, ts_day = 1, ts_nanos = 0\<rparr>)
     (2, ''followup_visit_1'') (0, 0) = (0, 1)
   \<and> check_performed \<lparr>ts_year = 2022, ts_month = 3, ts_day = 1, ts_nanos = 0\<rparr>
        (Some \<lparr>ts_year = 2022, ts_month = 2, ts_day = 15, ts_nanos = 0\<rparr>) (0, 0) = (0, 0)
   \<and> check_performed \<lparr>ts_year = 2022, ts_month = 3, ts_day = 1, ts_nanos = 0\<rparr>
        (Some \<lparr>ts_year = 2022, ts_month = 2, ts_day = 14, ts_nanos = 0\<rparr>) (0, 0) = (0, 1)"
  using
    grace_window_inclusive [THEN conjunct1,
      of 1 "\<lparr>ts_year = 2022, ts_month = 1, ts_day = 1, ts_nanos = 0\<rparr>" None
         "\<lambda>k. if k = (''P1'', BASELINE_EVENT_NAME)
                then Some \<lparr>ts_year = 2022, ts_month = 1, ts_day = 15, ts_nanos = 0\<rparr> else None"
         "''P1''" "\<lparr>ts_year = 2022, ts_month = 1, ts_day = 15, ts_nanos = 0\<rparr>" "(0, 0)"]
    grace_window_inclusive [THEN conjunct2, THEN conjunct1,
      of 1 "\<lparr>ts_year = 2022, ts_month = 1, ts_day = 1, ts_nanos = 0\<rparr>" "(2, ''followup_visit_1'')"
         "Some \<lparr>ts_year = 2023, ts_month = 7, ts_day = 1, ts_nanos = 0\<rparr>"
         "\<lambda>k. if k = (''P1'', ''followup_visit_1'')
                then Some \<lparr>ts_year = 2022, ts_month = 3, ts_day = 16, ts_nanos = 0\<rparr> else None"
         "''P1''" "\<lparr>ts_year = 2022, ts_month = 3, ts_day = 16, ts_nanos = 0\<rparr>" "(0, 0)"]
    grace_window_inclusive [THEN conjunct2, THEN conjunct2, THEN conjunct2, THEN conjunct1,
      of "\<lparr>ts_year = 2022, ts_month = 2, ts_day = 15, ts_nanos = 0\<rparr>"
         "\<lparr>ts_year = 2022, ts_month = 3, ts_day = 1, ts_nanos = 0\<rparr>" "(0, 0)"]
    grace_window_inclusive [THEN conjunct2, THEN conjunct2, THEN conjunct2, THEN conjunct2,
      of "\<lparr>ts_year = 2022, ts_month = 2, ts_day = 14, ts_nanos = 0\<rparr>"
         "\<lparr>ts_year = 2022, ts_month = 3, ts_day = 1, ts_nanos = 0\<rparr>" "(0, 0)"]
  by (simp add: baseline_is_expected_def is_expected_def add_months_def relativedelta_months_def
      add_relativedelta_def monthrange_def isleap_def
      ts_value_def toordinal_def days_before_year_def days_before_month_def nanos_per_day_def)

lemma check_followups_filter:
  "check_followups d pid st b (Some h) schedule acc =
   check_followups d pid st b (Some h)
     (filter (\<lambda>e. ts_value (add_months b (fst e)) \<le> ts_value h) schedule) acc"
  by (induction schedule arbitrary: acc) (simp_all add: check_followup_def is_expected_def Let_def)

text \<open>
  Claim C3. With a resolved horizon, a schedule entry whose scheduled date is strictly
  after the horizon leaves both counters unchanged, whatever the index of performed tests
  holds for it; the counts of the participant are those of the schedule without such
  entries.
\<close>

theorem horizon_cutoff:
  "(ts_value h < ts_value (add_months base_dt (fst entry)) \<longrightarrow>
      check_followup pdict pid status base_dt (Some h) entry acc = acc)
   \<and> count_deviations pdict pid status base_dt (Some h) schedule =
       count_deviations pdict pid status base_dt (Some h)
         (filter (\<lambda>e. ts_value (add_months base_dt (fst e)) \<le> ts_value h) schedule)"
proof (intro conjI impI)
  assume "ts_value h < ts_value (add_months base_dt (fst entry))"
  then show "check_followup pdict pid status base_dt (Some h) entry acc = acc"
    by (simp add: check_followup_def is_expected_def Let_def)
next
  show "count_deviations pdict pid status base_dt (Some h) schedule =
       count_deviations pdict pid status base_dt (Some h)
         (filter (\<lambda>e. ts_value (add_months base_dt (fst e)) \<le> ts_value h) schedule)"
    by (simp only: count_deviations_def Let_def check_followups_filter [symmetric])
qed

theorem horizon_cutoff_witness:
  "check_followup (\<lambda>k. None) ''P2'' 2 \<lparr>ts_year = 2022, ts_month = 1, ts_day = 1, ts_nanos = 0\<rparr>
     (Some \<lparr>ts_year = 2022, ts_month = 2, ts_day = 15, ts_nanos = 0\<rparr>) (2, ''followup_visit_1'') (0, 0)
   = (0, 0)"
  using horizon_cutoff [THEN conjunct1,
      of "\<lparr>ts_year = 2022, ts_month = 2, ts_day = 15, ts_nanos = 0\<rparr>"
         "\<lparr>ts_year = 2022, ts_month = 1, ts_day = 1, ts_nanos = 0\<rparr>" "(2, ''followup_visit_1'')"
         "\<lambda>k. None" "''P2''" 2 "(0, 0)"]
  by (simp add: add_months_def relativedelta_months_def
      add_relativedelta_def monthrange_def isleap_def
      ts_value_def toordinal_def days_before_year_def days_before_month_def nanos_per_day_def)

lemma count_deviations_bounds:
  "0 \<le> missed_count (count_deviations d pid st b e schedule)
   \<and> 0 \<le> outside_window_count (count_deviations d pid st b e schedule)
   \<and> missed_count (count_deviations d pid st b e schedule)
       + outside_window_count (count_deviations d pid st b e schedule) \<le> 1 + int (length schedule)
   \<and> total_deviations (count_deviations d pid st b e schedule)
       = missed_count (count_deviations d pid st b e schedule)
         + outside_window_count (count_deviations d pid st b e schedule)"
  using check_baseline_cases [of d pid st b e "(0, 0)"]
    check_followups_bounds [of "check_baseline d pid st b e (0, 0)" d pid st b e schedule]
  by (auto simp add: count_deviations_def Let_def)

text \<open>
  Claim C10. Whenever counts are computed for a participant, the missed count and the
  outside-window count are non-negative, their sum is at most one plus the number of
  schedule entries, and the total is their sum. The baseline check and each pass of the
  follow-up loop add one to at most one of the two counters.
\<close>

theorem counts_bounded:
  "(participant_counts pdict pid status_cell base_dt endpoint1_dt endpoint2_dt = Some c \<longrightarrow>
      0 \<le> missed_count c \<and> 0 \<le> outside_window_count c
      \<and> missed_count c + outside_window_count c \<le> 1 + int (length EXPECTED_FOLLOWUP_SCHEDULE)
      \<and> total_deviations c = missed_count c + outside_window_count c)
   \<and> (check_baseline pdict pid status base_dt end_date acc
         \<in> {acc, (fst acc + 1, snd acc), (fst acc, snd acc + 1)})
   \<and> (check_followup pdict pid status base_dt end_date entry acc
         \<in> {acc, (fst acc + 1, snd acc), (fst acc, snd acc + 1)})"
proof -
  have 1: "0 \<le> missed_count c \<and> 0 \<le> outside_window_count c
      \<and> missed_count c + outside_window_count c \<le> 1 + int (length EXPECTED_FOLLOWUP_SCHEDULE)
      \<and> total_deviations c = missed_count c + outside_window_count c"
    if "participant_counts pdict pid status_cell base_dt endpoint1_dt endpoint2_dt = Some c"
  proof -
    from that obtain st e
      where "c = count_deviations pdict pid st base_dt e EXPECTED_FOLLOWUP_SCHEDULE"
      by (auto simp add: participant_counts_def Let_def split: option.splits if_splits)
    then show ?thesis
      using count_deviations_bounds [of pdict pid st base_dt e EXPECTED_FOLLOWUP_SCHEDULE]
      by simp
  qed
  have 2: "check_baseline pdict pid status base_dt end_date acc
         \<in> {acc, (fst acc + 1, snd acc), (fst acc, snd acc + 1)}"
    using check_baseline_cases [of pdict pid status base_dt end_date acc] by auto
  have 3: "check_followup pdict pid status base_dt end_date entry acc
         \<in> {acc, (fst acc + 1, snd acc), (fst acc, snd acc + 1)}"
    using check_followup_cases [of pdict pid status base_dt end_date entry acc] by auto
  from 1 2 3 show ?thesis by blast
qed

theorem counts_bounded_witness:
  "participant_counts (\<lambda>k. None) ''P2'' (Some 2)
     \<lparr>ts_year = 2022, ts_month = 1, ts_day = 1, ts_nanos = 0\<rparr>
     (Some \<lparr>ts_year = 2022, ts_month = 2, ts_day = 15, ts_nanos = 0\<rparr>) None
   = Some \<lparr>missed_count = 1, outside_window_count = 0, total_deviations = 1\<rparr>
   \<and> (0::int) \<le> 1 \<and> (1::int) + 0 \<le> 1 + int (length EXPECTED_FOLLOWUP_SCHEDULE)"
  using counts_bounded [THEN conjunct1,
      of "\<lambda>k. None" "''P2''" "Some 2" "\<lparr>ts_year = 2022, ts_month = 1, ts_day = 1, ts_nanos = 0\<rparr>"
         "Some \<lparr>ts_year = 2022, ts_month = 2, ts_day = 15, ts_nanos = 0\<rparr>" None
         "\<lparr>missed_count = 1, outside_window_count = 0, total_deviations = 1\<rparr>"]
  by (simp add: participant_counts_def participant_end_point_date_def count_deviations_def
      check_baseline_def baseline_is_expected_def check_performed_def check_followup_def
      is_expected_def EXPECTED_FOLLOWUP_SCHEDULE_def add_months_def relativedelta_months_def
      add_relativedelta_def monthrange_def isleap_def
      ts_value_def toordinal_def days_before_year_def days_before_month_def nanos_per_day_def)
section \<open>Lists, duplicates and dictionaries\<close>

lemma find_filter: "find P (filter Q xs) = find (\<lambda>x. Q x \<and> P x) xs"
  by (induction xs) simp_all

lemma set_drop_duplicates: "set (drop_duplicates k xs) \<subseteq> set xs"
  by (induction k xs rule: drop_duplicates.induct) auto

lemma keys_drop_duplicates: "k ` set (drop_duplicates k xs) = k ` set xs"
  by (induction k xs rule: drop_duplicates.induct) auto

lemma distinct_drop_duplicates: "distinct (map k (drop_duplicates k xs))"
proof (induction k xs rule: drop_duplicates.induct)
  case (1 k)
  show ?case by simp
next
  case (2 k x xs)
  have "k x \<notin> k ` set (drop_duplicates k (filter (\<lambda>y. k y \<noteq> k x) xs))"
    using set_drop_duplicates [of k "filter (\<lambda>y. k y \<noteq> k x) xs"] by auto
  with 2 show ?case by simp
qed

lemma find_drop_duplicates:
  "find (\<lambda>x. k x = a) (drop_duplicates k xs) = find (\<lambda>x. k x = a) xs"
proof (induction k xs rule: drop_duplicates.induct)
  case (1 k)
  show ?case by simp
next
  case (2 k x xs)
  show ?case
  proof (cases "k x = a")
    case True
    then show ?thesis by simp
  next
    case False
    have "find (\<lambda>y. k y \<noteq> k x \<and> k y = a) xs = find (\<lambda>y. k y = a) xs"
      using False by (intro find_cong) auto
    with False 2 show ?thesis by (simp add: find_filter)
  qed
qed

lemma set_map_filter: "set (List.map_filter f xs) = {y. \<exists>x\<in>set xs. f x = Some y}"
  by (induction xs) (auto split: option.splits)

lemma store_counts_other:
  "p \<noteq> record_id (fst q) \<Longrightarrow> map_of (store_counts pd q acc) p = map_of acc p"
  by (simp add: store_counts_def update_conv' split: option.splits)

lemma store_counts_same:
  "map_of (store_counts pd q acc) (record_id (fst q)) =
     (case participant_counts pd (record_id (fst q)) (participant_status (fst q)) (snd q)
             (primary_endpoint_date (fst q)) (secondary_endpoint_date (fst q)) of
        None \<Rightarrow> map_of acc (record_id (fst q)) | Some c \<Rightarrow> Some c)"
  by (simp add: store_counts_def update_conv' split: option.splits)

lemma fold_store_counts_other:
  "p \<notin> (\<lambda>q. record_id (fst q)) ` set prs \<Longrightarrow>
     map_of (fold (store_counts pd) prs acc) p = map_of acc p"
  by (induction prs arbitrary: acc) (simp_all add: store_counts_other)

lemma fold_store_counts_member:
  "distinct (map (\<lambda>q. record_id (fst q)) prs) \<Longrightarrow> q \<in> set prs \<Longrightarrow>
     map_of (fold (store_counts pd) prs acc) (record_id (fst q)) =
       (case participant_counts pd (record_id (fst q)) (participant_status (fst q)) (snd q)
               (primary_endpoint_date (fst q)) (secondary_endpoint_date (fst q)) of
          None \<Rightarrow> map_of acc (record_id (fst q)) | Some c \<Rightarrow> Some c)"
proof (induction prs arbitrary: acc)
  case Nil
  then show ?case by simp
next
  case (Cons x prs)
  show ?case
  proof (cases "q = x")
    case True
    from Cons.prems(1) have "record_id (fst x) \<notin> (\<lambda>q. record_id (fst q)) ` set prs" by simp
    then have "map_of (fold (store_counts pd) prs (store_counts pd x acc)) (record_id (fst x))
        = map_of (store_counts pd x acc) (record_id (fst x))"
      by (rule fold_store_counts_other)
    then show ?thesis unfolding True by (simp add: store_counts_same)
  next
    case False
    with Cons.prems have q: "q \<in> set prs" and d: "distinct (map (\<lambda>q. record_id (fst q)) prs)"
      by auto
    from Cons.prems(1) q have n: "record_id (fst q) \<noteq> record_id (fst x)"
      by (auto simp add: image_iff)
    have e: "map_of (store_counts pd x acc) (record_id (fst q)) = map_of acc (record_id (fst q))"
      using n by (rule store_counts_other)
    from Cons.IH [OF d q, of "store_counts pd x acc"] show ?thesis
      unfolding e by simp
  qed
qed

lemma distinct_fold_store_counts:
  "distinct (map fst acc) \<Longrightarrow> distinct (map fst (fold (store_counts pd) prs acc))"
proof (induction prs arbitrary: acc)
  case Nil
  then show ?case by simp
next
  case (Cons x prs)
  from Cons.prems have "distinct (map fst (store_counts pd x acc))"
    by (simp add: store_counts_def distinct_update split: option.splits)
  then show ?case using Cons.IH by simp
qed

lemma keys_fold_store_counts:
  "fst ` set (fold (store_counts pd) prs acc) \<subseteq> fst ` set acc \<union> (\<lambda>q. record_id (fst q)) ` set prs"
proof (induction prs arbitrary: acc)
  case Nil
  then show ?case by simp
next
  case (Cons x prs)
  have "fst ` set (store_counts pd x acc) \<subseteq> insert (record_id (fst x)) (fst ` set acc)"
    by (auto simp add: store_counts_def dom_update split: option.splits)
  with Cons [of "store_counts pd x acc"] show ?case by auto
qed

lemma set_merged_participants:
  "(r, b) \<in> set (merged_participants df fb) \<longleftrightarrow> r \<in> set (pinfo_raw df) \<and> map_of fb (record_id r) = Some b"
  by (auto simp add: merged_participants_def set_map_filter)

lemma distinct_map_filter_pair:
  "distinct (map k xs) \<Longrightarrow>
     distinct (map (\<lambda>q. k (fst q)) (List.map_filter (\<lambda>r. map_option (Pair r) (g r)) xs))"
proof (induction xs)
  case Nil
  show ?case by simp
next
  case (Cons x xs)
  have "k x \<notin> (\<lambda>q. k (fst q)) ` set (List.map_filter (\<lambda>r. map_option (Pair r) (g r)) xs)"
    using Cons.prems by (auto simp add: set_map_filter)
  with Cons show ?case by (cases "g x") simp_all
qed

lemma distinct_merged_participants:
  "distinct (map (\<lambda>q. record_id (fst q)) (merged_participants df fb))"
  unfolding merged_participants_def pinfo_raw_def
  by (rule distinct_map_filter_pair) (rule distinct_drop_duplicates)

lemma distinct_participants_for_recalc:
  "distinct (map (\<lambda>q. record_id (fst q)) (participants_for_recalc df fb))"
  unfolding participants_for_recalc_def
  by (rule distinct_map_filter) (rule distinct_merged_participants)

lemma max_month_offset_18: "max_month_offset = 18"
  by (simp add: max_month_offset_def EXPECTED_FOLLOWUP_SCHEDULE_def)

lemma participant_counts_by_status:
  "participant_counts pd p (Some s) b e1 e2 =
     (if s = 1 then Some (count_deviations pd p 1 b (Some (add_months b max_month_offset)) EXPECTED_FOLLOWUP_SCHEDULE)
      else if s = 2 then map_option (\<lambda>h. count_deviations pd p 2 b (Some h) EXPECTED_FOLLOWUP_SCHEDULE) e1
      else if s = 3 \<or> s = 4
        then map_option (\<lambda>h. count_deviations pd p s b (Some h) EXPECTED_FOLLOWUP_SCHEDULE) e2
      else Some (count_deviations pd p s b None EXPECTED_FOLLOWUP_SCHEDULE))"
  by (cases e1; cases e2)
    (auto simp add: participant_counts_def participant_end_point_date_def Let_def)

lemma mem_drop_duplicates_iff:
  "x \<in> set (drop_duplicates k xs) \<longleftrightarrow> find (\<lambda>y. k y = k x) xs = Some x"
proof
  assume "x \<in> set (drop_duplicates k xs)"
  then obtain i where i: "i < length (drop_duplicates k xs)" "drop_duplicates k xs ! i = x"
    by (auto simp add: in_set_conv_nth)
  have "find (\<lambda>y. k y = k x) (drop_duplicates k xs) = Some x"
    unfolding find_Some_iff
  proof (intro exI [of _ i] conjI allI impI)
    show "i < length (drop_duplicates k xs)" by (rule i(1))
    show "k (drop_duplicates k xs ! i) = k x" using i(2) by simp
    show "x = drop_duplicates k xs ! i" using i(2) by simp
    fix j assume "j < i"
    have "\<forall>a<length (map k (drop_duplicates k xs)). \<forall>b<length (map k (drop_duplicates k xs)).
            a \<noteq> b \<longrightarrow> map k (drop_duplicates k xs) ! a \<noteq> map k (drop_duplicates k xs) ! b"
      using distinct_drop_duplicates [of k xs] by (simp only: distinct_conv_nth)
    with i \<open>j < i\<close> show "k (drop_duplicates k xs ! j) \<noteq> k x" by auto
  qed
  then show "find (\<lambda>y. k y = k x) xs = Some x" by (simp add: find_drop_duplicates)
next
  assume "find (\<lambda>y. k y = k x) xs = Some x"
  then have "find (\<lambda>y. k y = k x) (drop_duplicates k xs) = Some x"
    by (simp add: find_drop_duplicates)
  then show "x \<in> set (drop_duplicates k xs)"
    by (auto simp add: find_Some_iff)
qed

lemma find_as_filter: "find P xs = (case filter P xs of [] \<Rightarrow> None | x # _ \<Rightarrow> Some x)"
  by (induction xs) simp_all

lemma map_of_map_filter_keyed:
  "map_of (List.map_filter (\<lambda>r. map_option (Pair (k r)) (v r)) xs) a =
     (case find (\<lambda>r. k r = a \<and> v r \<noteq> None) xs of None \<Rightarrow> None | Some r \<Rightarrow> v r)"
  by (induction xs) (auto split: option.splits)

lemma find_distinct_key:
  assumes "distinct (map k xs)"
  shows "find (\<lambda>r. k r = a \<and> P r) xs = (case find (\<lambda>r. k r = a) xs of None \<Rightarrow> None
            | Some r \<Rightarrow> if P r then Some r else None)"
  using assms
proof (induction xs)
  case Nil
  show ?case by simp
next
  case (Cons x xs)
  show ?case
  proof (cases "k x = a")
    case True
    with Cons.prems have "\<not> (\<exists>y. y \<in> set xs \<and> k y = a \<and> P y)"
      by (fastforce simp add: image_iff)
    then have "find (\<lambda>r. k r = a \<and> P r) xs = None" by (simp only: find_None_iff not_False_eq_True)
    with True show ?thesis by simp
  next
    case False
    with Cons show ?thesis by simp
  qed
qed

text \<open>
  Whatever order the single-column sort gives to rows of the same identifier, an
  effective baseline of a participant is the anchor date of one of its baseline rows;
  a sort that keeps equal keys in order is one of the sorts the model admits.
\<close>

lemma sorts_by_sort_key: "sorts_by key (sort_key key)"
  by (simp add: sorts_by_def)

lemma final_baselines_row:
  assumes "sorts_by record_id srt" and "map_of (final_baselines srt cols df) p = Some b"
  shows "\<exists>r\<in>set df. is_baseline_row r \<and> record_id r = p \<and> effective_baseline cols r = Some b"
proof -
  from assms(2) have "(p, b) \<in> set (final_baselines srt cols df)" by (rule map_of_SomeD)
  then obtain r where r: "r \<in> set (baseline_event_rows srt df)" "record_id r = p"
      "effective_baseline cols r = Some b"
    by (auto simp add: final_baselines_def set_map_filter)
  from assms(1) have "mset (srt (filter is_baseline_row df)) = mset (filter is_baseline_row df)"
    by (simp add: sorts_by_def)
  then have "set (srt (filter is_baseline_row df)) = set (filter is_baseline_row df)"
    by (rule mset_eq_setD)
  with r(1) set_drop_duplicates [of record_id "srt (filter is_baseline_row df)"]
  have "r \<in> set df" "is_baseline_row r" by (auto simp add: baseline_event_rows_def)
  with r(2,3) show ?thesis by blast
qed
section \<open>The horizon of a participant\<close>

lemma records_of_merged:
  assumes "(r, b) \<in> set (merged_participants df (final_baselines srt cols df))"
  shows "map_of (deviation_records srt cols df) (record_id r) =
     (case participant_status r of
        None \<Rightarrow> None
      | Some s \<Rightarrow>
          if s = 1
            then Some (count_deviations (performed_dict df) (record_id r) 1 b
                         (Some (add_months b max_month_offset)) EXPECTED_FOLLOWUP_SCHEDULE)
          else if s = 2
            then map_option (\<lambda>h. count_deviations (performed_dict df) (record_id r) 2 b
                                   (Some h) EXPECTED_FOLLOWUP_SCHEDULE)
                   (primary_endpoint_date r)
          else if s = 3 \<or> s = 4
            then map_option (\<lambda>h. count_deviations (performed_dict df) (record_id r) s b
                                   (Some h) EXPECTED_FOLLOWUP_SCHEDULE)
                   (secondary_endpoint_date r)
          else None)"
proof -
  let ?prs = "participants_for_recalc df (final_baselines srt cols df)"
  let ?valid = "case participant_status r of None \<Rightarrow> False | Some s \<Rightarrow> s \<in> set valid_statuses_for_calc"
  show ?thesis
  proof (cases ?valid)
    case True
    with assms have mem: "(r, b) \<in> set ?prs" by (simp add: participants_for_recalc_def)
    from True obtain s where s: "participant_status r = Some s" "s = 1 \<or> s = 2 \<or> s = 3 \<or> s = 4"
      by (auto simp add: valid_statuses_for_calc_def split: option.splits)
    have "map_of (deviation_records srt cols df) (record_id r) =
        participant_counts (performed_dict df) (record_id r) (Some s) b
          (primary_endpoint_date r) (secondary_endpoint_date r)"
      using fold_store_counts_member [OF distinct_participants_for_recalc mem, of "performed_dict df" "[]"] s(1)
      by (simp add: deviation_records_def calculated_counts_def split: option.splits)
    with s show ?thesis by (auto simp add: participant_counts_by_status)
  next
    case False
    have "record_id r \<notin> (\<lambda>q. record_id (fst q)) ` set ?prs"
    proof
      assume "record_id r \<in> (\<lambda>q. record_id (fst q)) ` set ?prs"
      then obtain q where q: "q \<in> set ?prs" "record_id (fst q) = record_id r" by auto
      then have qm: "q \<in> set (merged_participants df (final_baselines srt cols df))"
        and qv: "case participant_status (fst q) of None \<Rightarrow> False | Some s \<Rightarrow> s \<in> set valid_statuses_for_calc"
        by (simp_all add: participants_for_recalc_def)
      from distinct_merged_participants [of df "final_baselines srt cols df"] qm assms q(2)
      have "q = (r, b)" by (auto simp add: distinct_map inj_on_def)
      with qv False show False by simp
    qed
    then have "map_of (deviation_records srt cols df) (record_id r) = None"
      using fold_store_counts_other [of "record_id r" ?prs "performed_dict df" "[]"]
      by (simp add: deviation_records_def calculated_counts_def)
    with False show ?thesis
      by (auto simp add: valid_statuses_for_calc_def split: option.splits)
  qed
qed

text \<open>
  Claim C1. Let participant \<open>p\<close> have the resolved effective baseline \<open>b\<close>, let
  \<open>r\<close> be its first baseline row, from which status and endpoint dates are read, and
  let the test-date column exist (without it the script stops before the loop). The
  record computed for \<open>p\<close> depends on the status alone for its horizon: with status 1
  it is counted against the baseline plus the largest month offset of the schedule
  (18 months), whatever the endpoint dates are; with status 2 against the primary
  endpoint date and with status 3 or 4 against the secondary endpoint date, and no record
  is computed when that date is absent; with any other status, or none, no record is
  computed. This holds for every behaviour of the single-column sort.
\<close>

theorem horizon_by_status:
  assumes "TEST_DATE_COL \<in> set cols"
    and "find (\<lambda>x. is_baseline_row x \<and> record_id x = p) df = Some r"
    and "map_of (final_baselines srt cols df) p = Some b"
  shows "map_of (deviation_records srt cols df) p =
     (case participant_status r of
        None \<Rightarrow> None
      | Some s \<Rightarrow>
          if s = 1
            then Some (count_deviations (performed_dict df) p 1 b
                         (Some (add_months b max_month_offset)) EXPECTED_FOLLOWUP_SCHEDULE)
          else if s = 2
            then map_option (\<lambda>h. count_deviations (performed_dict df) p 2 b
                                   (Some h) EXPECTED_FOLLOWUP_SCHEDULE)
                   (primary_endpoint_date r)
          else if s = 3 \<or> s = 4
            then map_option (\<lambda>h. count_deviations (performed_dict df) p s b
                                   (Some h) EXPECTED_FOLLOWUP_SCHEDULE)
                   (secondary_endpoint_date r)
          else None)"
proof -
  from assms(2) have id: "record_id r = p" by (auto simp add: find_Some_iff)
  from assms(2) have "find (\<lambda>y. record_id y = record_id r) (filter is_baseline_row df) = Some r"
    unfolding find_filter id .
  then have "r \<in> set (pinfo_raw df)"
    by (simp only: pinfo_raw_def mem_drop_duplicates_iff)
  with assms(3) id have "(r, b) \<in> set (merged_participants df (final_baselines srt cols df))"
    by (simp add: set_merged_participants)
  from records_of_merged [OF this] show ?thesis unfolding id .
qed

theorem horizon_by_status_witness:
  "map_of (deviation_records (sort_key record_id) all_columns example_rows) ''P1''
     = Some \<lparr>missed_count = 8, outside_window_count = 1, total_deviations = 9\<rparr>
   \<and> map_of (deviation_records (sort_key record_id) all_columns
               [converted ''P3'' ''study_baseline'' (Some (day 2022 1 1)) (Some 3)]) ''P3'' = None
   \<and> add_months (day 2022 1 1) max_month_offset = day 2023 7 1"
proof -
  have t: "TEST_DATE_COL \<in> set all_columns" by code_simp
  have h1: "find (\<lambda>x. is_baseline_row x \<and> record_id x = ''P1'') example_rows
      = Some (converted ''P1'' ''study_baseline'' (Some (day 2022 1 1)) (Some 1))"
    by code_simp
  have h2: "map_of (final_baselines (sort_key record_id) all_columns example_rows) ''P1''
      = Some (day 2022 1 1)"
    by code_simp
  have v: "count_deviations (performed_dict example_rows) ''P1'' 1 (day 2022 1 1)
      (Some (add_months (day 2022 1 1) max_month_offset)) EXPECTED_FOLLOWUP_SCHEDULE
      = \<lparr>missed_count = 8, outside_window_count = 1, total_deviations = 9\<rparr>"
    by code_simp
  have g1: "find (\<lambda>x. is_baseline_row x \<and> record_id x = ''P3'')
        [converted ''P3'' ''study_baseline'' (Some (day 2022 1 1)) (Some 3)]
      = Some (converted ''P3'' ''study_baseline'' (Some (day 2022 1 1)) (Some 3))"
    by code_simp
  have g2: "map_of (final_baselines (sort_key record_id) all_columns
        [converted ''P3'' ''study_baseline'' (Some (day 2022 1 1)) (Some 3)]) ''P3''
      = Some (day 2022 1 1)"
    by code_simp
  have m: "add_months (day 2022 1 1) max_month_offset = day 2023 7 1" by code_simp
  from horizon_by_status [OF t h1 h2] horizon_by_status [OF t g1 g2] v m show ?thesis
    by (simp add: converted_def)
qed

section \<open>Writing the counts back\<close>

lemma first_index_Some:
  "first_index P xs = Some i \<Longrightarrow> i < length xs \<and> P (xs ! i) \<and> (\<forall>j<i. \<not> P (xs ! j))"
proof (induction xs arbitrary: i)
  case Nil
  then show ?case by simp
next
  case (Cons x xs)
  show ?case
  proof (cases "P x")
    case True
    with Cons.prems show ?thesis by simp
  next
    case False
    with Cons.prems obtain k where k: "first_index P xs = Some k" "i = Suc k" by auto
    from Cons.IH [OF k(1)] False k(2) show ?thesis
      by (auto simp add: nth_Cons split: nat.splits)
  qed
qed

lemma first_index_map:
  "(\<And>x. P (f x) = P x) \<Longrightarrow> first_index P (map f xs) = first_index P xs"
  by (induction xs) simp_all

lemma clear_counts_set_counts [simp]: "clear_counts (set_counts c r) = clear_counts r"
  by (simp add: clear_counts_def set_counts_def)

lemma clear_counts_idem [simp]: "clear_counts (clear_counts r) = clear_counts r"
  by (simp add: clear_counts_def)

lemma set_counts_set_counts [simp]: "set_counts c (set_counts c' r) = set_counts c r"
  by (simp add: set_counts_def)

lemma clear_counts_fields [simp]:
  "record_id (clear_counts r) = record_id r" "event_name (clear_counts r) = event_name r"
  "participant_status (clear_counts r) = participant_status r"
  "missed_test_count (clear_counts r) = None" "outside_window_test_count (clear_counts r) = None"
  "total_test_deviations (clear_counts r) = None"
  by (simp_all add: clear_counts_def)

lemma set_counts_fields [simp]:
  "record_id (set_counts c r) = record_id r" "event_name (set_counts c r) = event_name r"
  by (simp_all add: set_counts_def)

lemma first_index_frame:
  assumes "map clear_counts xs = map clear_counts ys"
  shows "first_index (\<lambda>r. record_id r = p \<and> event_name r = e) xs
       = first_index (\<lambda>r. record_id r = p \<and> event_name r = e) ys"
proof -
  have "first_index (\<lambda>r. record_id r = p \<and> event_name r = e) (map clear_counts zs)
      = first_index (\<lambda>r. record_id r = p \<and> event_name r = e) zs" for zs
    by (rule first_index_map) simp
  from this [of xs] this [of ys] assms show ?thesis by simp
qed

lemma written_frame: "written S df0 df \<Longrightarrow> map clear_counts df = map clear_counts df0"
  by (rule nth_equalityI) (auto simp add: written_def)

lemma written_mono: "written S df0 df \<Longrightarrow> S \<subseteq> S' \<Longrightarrow> written S' df0 df"
  unfolding written_def by blast

lemma written_write_one:
  assumes "written S df0 df"
  shows "written (insert item S) df0 (write_one item df)"
proof (cases "first_index (\<lambda>r. record_id r = fst item \<and> event_name r = BASELINE_EVENT_NAME) df")
  case None
  then have "write_one item df = df" by (simp add: write_one_def)
  with assms show ?thesis by (auto intro: written_mono)
next
  case (Some idx)
  let ?P = "\<lambda>r. record_id r = fst item \<and> event_name r = BASELINE_EVENT_NAME"
  from Some have w: "write_one item df = df[idx := set_counts (snd item) (df ! idx)]"
    by (simp add: write_one_def)
  have f0: "first_index ?P df0 = Some idx"
    using first_index_frame [OF written_frame [OF assms], of "fst item" BASELINE_EVENT_NAME] Some
    by simp
  from first_index_Some [OF f0] have idx: "idx < length df0" "record_id (df0 ! idx) = fst item"
    by simp_all
  from assms have len: "length df = length df0" by (simp add: written_def)
  have new: "set_counts (snd item) (df ! idx) = set_counts (snd item) (df0 ! idx)"
    using assms idx(1) unfolding written_def by (metis set_counts_set_counts)
  show ?thesis
    unfolding written_def w
  proof (intro conjI allI impI)
    show "length (df[idx := set_counts (snd item) (df ! idx)]) = length df0" using len by simp
  next
    fix i assume i: "i < length df0"
    show "df[idx := set_counts (snd item) (df ! idx)] ! i = df0 ! i \<or>
        (\<exists>c. (record_id (df0 ! i), c) \<in> insert item S
           \<and> first_index (\<lambda>r. record_id r = record_id (df0 ! i) \<and> event_name r = BASELINE_EVENT_NAME) df0
               = Some i
           \<and> df[idx := set_counts (snd item) (df ! idx)] ! i = set_counts c (df0 ! i))"
    proof (cases "i = idx")
      case True
      have m: "(record_id (df0 ! idx), snd item) \<in> insert item S"
        using idx(2) by (cases item) simp
      have f: "first_index (\<lambda>r. record_id r = record_id (df0 ! idx) \<and> event_name r = BASELINE_EVENT_NAME) df0
          = Some idx"
        using f0 idx(2) by simp
      have v: "df[idx := set_counts (snd item) (df ! idx)] ! idx = set_counts (snd item) (df0 ! idx)"
        using new len idx(1) by simp
      from m f v show ?thesis unfolding True by blast
    next
      case False
      with assms i show ?thesis unfolding written_def by auto
    qed
  qed
qed

lemma written_write_counts:
  "written S df0 df \<Longrightarrow> written (S \<union> set items) df0 (write_counts items df)"
  unfolding write_counts_def
proof (induction items arbitrary: S df)
  case Nil
  then show ?case by simp
next
  case (Cons item items)
  from Cons.IH [OF written_write_one [OF Cons.prems, of item]] show ?case by simp
qed

lemma written_refl: "written {} df0 df0"
  by (simp add: written_def)

lemma blank_excluded_nth:
  "length (blank_excluded df) = length df \<and>
   (\<forall>i<length df. blank_excluded df ! i = df ! i \<or> blank_excluded df ! i = clear_counts (df ! i))"
  by (simp add: blank_excluded_def Let_def)

lemma written_blank_excluded:
  assumes "written S df0 df" "map clear_counts df0 = df0"
  shows "written S df0 (blank_excluded df)"
  unfolding written_def
proof (intro conjI allI impI)
  show "length (blank_excluded df) = length df0"
    using assms(1) blank_excluded_nth [of df] by (simp add: written_def)
next
  fix i assume i: "i < length df0"
  from assms(1) i have len: "i < length df" by (simp add: written_def)
  have c0: "clear_counts (df0 ! i) = df0 ! i"
    using assms(2) i by (metis nth_map)
  have "clear_counts (df ! i) = clear_counts (df0 ! i)"
    using written_frame [OF assms(1)] i len by (metis nth_map)
  with c0 have cl: "clear_counts (df ! i) = df0 ! i" by simp
  from blank_excluded_nth [of df] len
  consider "blank_excluded df ! i = df ! i" | "blank_excluded df ! i = clear_counts (df ! i)" by blast
  then show "blank_excluded df ! i = df0 ! i \<or>
        (\<exists>c. (record_id (df0 ! i), c) \<in> S
           \<and> first_index (\<lambda>r. record_id r = record_id (df0 ! i) \<and> event_name r = BASELINE_EVENT_NAME) df0
               = Some i
           \<and> blank_excluded df ! i = set_counts c (df0 ! i))"
  proof cases
    case 1
    with assms(1) i show ?thesis unfolding written_def by auto
  next
    case 2
    with cl show ?thesis by simp
  qed
qed

lemma prepare_Inr:
  "prepare t = Inr df \<Longrightarrow> df = map (normalize_row (columns t)) (rows t)"
  by (simp add: prepare_def split: if_splits)

lemma run_Inr:
  assumes "run srt t = Inr out"
  obtains df where "prepare t = Inr df" "df = map (normalize_row (columns t)) (rows t)"
    "out = blank_excluded (write_counts (deviation_records srt (columns t) df) df)"
proof -
  from assms obtain df where p: "prepare t = Inr df"
    by (cases "prepare t") (simp_all add: run_def)
  with assms have "out = blank_excluded (write_counts (deviation_records srt (columns t) df) df)"
    by (simp add: run_def split: if_splits)
  with p prepare_Inr [OF p] that show ?thesis by blast
qed

lemma clear_counts_normalize_row [simp]: "clear_counts (normalize_row cols r) = normalize_row cols r"
  by (simp add: clear_counts_def normalize_row_def)

lemma deviation_records_key:
  assumes "(p, c) \<in> set (deviation_records srt cols df)"
  shows "p \<noteq> [] \<and> map_of (deviation_records srt cols df) p = Some c"
proof -
  have "distinct (map fst (deviation_records srt cols df))"
    unfolding deviation_records_def calculated_counts_def
    by (rule distinct_fold_store_counts) simp
  with assms have m: "map_of (deviation_records srt cols df) p = Some c" by simp
  from assms have "p \<in> fst ` set (deviation_records srt cols df)" by force
  with keys_fold_store_counts [of "performed_dict df"
      "participants_for_recalc df (final_baselines srt cols df)" "[]"]
  obtain q where q: "q \<in> set (participants_for_recalc df (final_baselines srt cols df))"
      "p = record_id (fst q)"
    unfolding deviation_records_def calculated_counts_def by auto
  from q(1) have "(fst q, snd q) \<in> set (merged_participants df (final_baselines srt cols df))"
    by (simp add: participants_for_recalc_def)
  then have "fst q \<in> set (pinfo_raw df)" by (simp only: set_merged_participants)
  with set_drop_duplicates [of record_id "filter is_baseline_row df"]
  have "is_baseline_row (fst q)" by (auto simp add: pinfo_raw_def)
  with q(2) m show ?thesis by (simp add: is_baseline_row_def)
qed

text \<open>
  Claim C8. In the table a completed run saves, clearing the three count columns gives
  back exactly the converted input rows, in the same order: no other field is changed
  and no row is added or lost (rows with an empty identifier included). A row with a
  value in any count column is a baseline row with a non-empty identifier, it is the first
  baseline row of its participant (so there is one such row per participant), counts
  were computed for that participant, and the row carries exactly those counts.
\<close>

theorem counts_only_on_baseline_row:
  assumes "run srt t = Inr out"
  shows "prepare t = Inr (map clear_counts out)
    \<and> map clear_counts out = map (normalize_row (columns t)) (rows t)
    \<and> (\<forall>i<length out.
          missed_test_count (out ! i) \<noteq> None \<or> outside_window_test_count (out ! i) \<noteq> None
            \<or> total_test_deviations (out ! i) \<noteq> None \<longrightarrow>
          is_baseline_row (out ! i)
          \<and> first_index (\<lambda>r. record_id r = record_id (out ! i) \<and> event_name r = BASELINE_EVENT_NAME) out
              = Some i
          \<and> (\<exists>c. map_of (deviation_records srt (columns t) (map clear_counts out)) (record_id (out ! i)) = Some c
                \<and> out ! i = set_counts c (map clear_counts out ! i)))"
proof -
  from assms obtain df where df: "prepare t = Inr df" "df = map (normalize_row (columns t)) (rows t)"
    "out = blank_excluded (write_counts (deviation_records srt (columns t) df) df)"
    by (rule run_Inr)
  let ?recs = "deviation_records srt (columns t) df"
  have cl: "map clear_counts df = df" by (simp add: df(2))
  have w: "written (set ?recs) df out"
    using written_blank_excluded [OF written_write_counts [OF written_refl, of ?recs df] cl]
    by (simp add: df(3))
  have frame: "map clear_counts out = df"
    using written_frame [OF w] cl by simp
  have len: "length out = length df" using w by (simp add: written_def)
  have main: "is_baseline_row (out ! i)
          \<and> first_index (\<lambda>r. record_id r = record_id (out ! i) \<and> event_name r = BASELINE_EVENT_NAME) out
              = Some i
          \<and> (\<exists>c. map_of ?recs (record_id (out ! i)) = Some c \<and> out ! i = set_counts c (df ! i))"
    if i: "i < length out"
      and nn: "missed_test_count (out ! i) \<noteq> None \<or> outside_window_test_count (out ! i) \<noteq> None
            \<or> total_test_deviations (out ! i) \<noteq> None" for i
  proof -
    from i len have i0: "i < length df" by simp
    have c0: "clear_counts (df ! i) = df ! i" using cl i0 by (metis nth_map)
    have "out ! i \<noteq> df ! i"
    proof
      assume "out ! i = df ! i"
      with c0 have "out ! i = clear_counts (df ! i)" by simp
      with nn show False by simp
    qed
    with w i0 obtain c where c: "(record_id (df ! i), c) \<in> set ?recs"
      "first_index (\<lambda>r. record_id r = record_id (df ! i) \<and> event_name r = BASELINE_EVENT_NAME) df = Some i"
      "out ! i = set_counts c (df ! i)"
      unfolding written_def by blast
    from c(3) have id: "record_id (out ! i) = record_id (df ! i)" by simp
    from deviation_records_key [OF c(1)]
    have k: "record_id (df ! i) \<noteq> []" "map_of ?recs (record_id (df ! i)) = Some c" by simp_all
    from first_index_Some [OF c(2)] have "event_name (df ! i) = BASELINE_EVENT_NAME" by simp
    with k(1) c(3) have b: "is_baseline_row (out ! i)" by (simp add: is_baseline_row_def)
    have "first_index (\<lambda>r. record_id r = record_id (df ! i) \<and> event_name r = BASELINE_EVENT_NAME) out
        = Some i"
      using first_index_frame [of out df "record_id (df ! i)" BASELINE_EVENT_NAME] frame cl c(2)
      by simp
    with b k(2) c(3) id show ?thesis by simp
  qed
  from df(1) frame have "prepare t = Inr (map clear_counts out)" by simp
  moreover from frame df(2) have "map clear_counts out = map (normalize_row (columns t)) (rows t)"
    by simp
  moreover from main frame have "\<forall>i<length out.
          missed_test_count (out ! i) \<noteq> None \<or> outside_window_test_count (out ! i) \<noteq> None
            \<or> total_test_deviations (out ! i) \<noteq> None \<longrightarrow>
          is_baseline_row (out ! i)
          \<and> first_index (\<lambda>r. record_id r = record_id (out ! i) \<and> event_name r = BASELINE_EVENT_NAME) out
              = Some i
          \<and> (\<exists>c. map_of (deviation_records srt (columns t) (map clear_counts out)) (record_id (out ! i)) = Some c
                \<and> out ! i = set_counts c (map clear_counts out ! i))"
    by simp
  ultimately show ?thesis by blast
qed

theorem counts_only_on_baseline_row_witness:
  "run (sort_key record_id) example_table = Inr example_output
   \<and> map clear_counts example_output = map (normalize_row (columns example_table)) (rows example_table)
   \<and> missed_test_count (example_output ! 0) \<noteq> None
   \<and> is_baseline_row (example_output ! 0)
   \<and> first_index (\<lambda>r. record_id r = record_id (example_output ! 0)
                       \<and> event_name r = BASELINE_EVENT_NAME) example_output = Some 0"
proof -
  have r: "run (sort_key record_id) example_table = Inr example_output" by code_simp
  have n: "missed_test_count (example_output ! 0) \<noteq> None"
    by (simp add: example_output_def set_counts_def)
  have l: "0 < length example_output" by (simp add: example_output_def)
  note th = counts_only_on_baseline_row [OF r]
  from th have a: "map clear_counts example_output
      = map (normalize_row (columns example_table)) (rows example_table)" by blast
  from th l n have b: "is_baseline_row (example_output ! 0)
      \<and> first_index (\<lambda>r. record_id r = record_id (example_output ! 0)
                       \<and> event_name r = BASELINE_EVENT_NAME) example_output = Some 0" by blast
  from r a n b show ?thesis by blast
qed

lemma set_drop_duplicates_id: "set (drop_duplicates (\<lambda>p. p) xs) = set xs"
  using keys_drop_duplicates [of "\<lambda>p. p" xs] by simp

lemma excluded_pids_iff:
  "p \<in> set (excluded_pids df) \<longleftrightarrow>
     (\<exists>b\<in>set df. is_baseline_row b \<and> participant_status b = Some 5 \<and> record_id b = p)"
  by (auto simp add: excluded_pids_def set_drop_duplicates_id excluded_status_code_def
      split: option.splits)

lemma excluded_pids_frame:
  assumes "map clear_counts xs = map clear_counts ys"
  shows "set (excluded_pids xs) = set (excluded_pids ys)"
proof -
  have "set (excluded_pids (map clear_counts zs)) = set (excluded_pids zs)" for zs
    by (auto simp add: excluded_pids_iff is_baseline_row_def)
  from this [of xs] this [of ys] assms show ?thesis by simp
qed

text \<open>
  Claim C4. If a participant has a baseline row with status 5, then in the saved table
  every row of that participant has all three count columns blank. The status of a
  participant is the one on its baseline rows.
\<close>

theorem excluded_status_blank:
  assumes "run srt t = Inr out"
    and "b \<in> set out" and "is_baseline_row b" and "participant_status b = Some 5"
    and "r \<in> set out" and "record_id r = record_id b"
  shows "missed_test_count r = None \<and> outside_window_test_count r = None
    \<and> total_test_deviations r = None"
proof -
  from assms(1) obtain df where df: "prepare t = Inr df" "df = map (normalize_row (columns t)) (rows t)"
    "out = blank_excluded (write_counts (deviation_records srt (columns t) df) df)"
    by (rule run_Inr)
  let ?df1 = "write_counts (deviation_records srt (columns t) df) df"
  have len: "length out = length ?df1" using blank_excluded_nth [of ?df1] df(3) by simp
  have fr: "map clear_counts out = map clear_counts ?df1"
  proof (rule nth_equalityI)
    show "length (map clear_counts out) = length (map clear_counts ?df1)" using len by simp
  next
    fix i assume "i < length (map clear_counts out)"
    with len have i: "i < length ?df1" by simp
    with blank_excluded_nth [of ?df1] df(3)
    have "out ! i = ?df1 ! i \<or> out ! i = clear_counts (?df1 ! i)" by simp
    with i len show "map clear_counts out ! i = map clear_counts ?df1 ! i" by auto
  qed
  from assms(2,3,4) have "record_id b \<in> set (excluded_pids out)"
    by (auto simp add: excluded_pids_iff)
  with excluded_pids_frame [OF fr] have ex: "record_id b \<in> set (excluded_pids ?df1)" by simp
  then have ne: "excluded_pids ?df1 \<noteq> []" by auto
  with df(3) have o: "out = map (\<lambda>r. if record_id r \<in> set (excluded_pids ?df1) then clear_counts r else r) ?df1"
    by (simp add: blank_excluded_def Let_def)
  from assms(5) obtain r1 where r1: "r1 \<in> set ?df1"
    "r = (if record_id r1 \<in> set (excluded_pids ?df1) then clear_counts r1 else r1)"
    by (subst (asm) o) auto
  have "record_id r = record_id r1" using r1(2) by (simp split: if_splits)
  with assms(6) ex r1(2) have "r = clear_counts r1" by simp
  then show ?thesis by simp
qed

theorem excluded_status_blank_witness:
  "run (sort_key record_id) excluded_table = Inr excluded_output
   \<and> missed_test_count (excluded_output ! 1) = None
   \<and> outside_window_test_count (excluded_output ! 1) = None
   \<and> total_test_deviations (excluded_output ! 1) = None"
proof -
  have r: "run (sort_key record_id) excluded_table = Inr excluded_output" by code_simp
  have b: "excluded_output ! 0 \<in> set excluded_output" by (simp add: excluded_output_def)
  have h: "is_baseline_row (excluded_output ! 0)" by code_simp
  have s: "participant_status (excluded_output ! 0) = Some 5" by code_simp
  have m: "excluded_output ! 1 \<in> set excluded_output" by (simp add: excluded_output_def)
  have i: "record_id (excluded_output ! 1) = record_id (excluded_output ! 0)" by code_simp
  from excluded_status_blank [OF r b h s m i] r show ?thesis by blast
qed

section \<open>The index of performed tests\<close>

lemma hd_insort_key:
  "hd (insort_key f x ys) = (if ys = [] \<or> f x \<le> f (hd ys) then x else hd ys)"
  by (cases ys) simp_all

lemma sort_key_Nil_iff: "sort_key f xs = [] \<longleftrightarrow> xs = []"
  by (metis length_sort list.size(3) length_0_conv)

lemma hd_sort_key:
  "M \<noteq> [] \<Longrightarrow> hd (sort_key f M) \<in> set M \<and> (\<forall>x\<in>set M. f (hd (sort_key f M)) \<le> f x)
     \<and> find (\<lambda>x. f x = f (hd (sort_key f M))) M = Some (hd (sort_key f M))"
proof (induction M)
  case Nil
  then show ?case by simp
next
  case (Cons x M)
  show ?case
  proof (cases "M = []")
    case True
    then show ?thesis by simp
  next
    case False
    let ?k = "hd (sort_key f M)"
    from Cons.IH [OF False] have k: "?k \<in> set M" "\<forall>y\<in>set M. f ?k \<le> f y"
      "find (\<lambda>y. f y = f ?k) M = Some ?k" by simp_all
    have ne: "sort_key f M \<noteq> []" using False by (simp add: sort_key_Nil_iff)
    show ?thesis
    proof (cases "f x \<le> f ?k")
      case True
      with ne have h: "hd (sort_key f (x # M)) = x" by (simp add: hd_insort_key)
      from True k(2) have "\<forall>y\<in>set M. f x \<le> f y" by auto
      with h show ?thesis by simp
    next
      case False
      with ne have h: "hd (sort_key f (x # M)) = ?k" by (simp add: hd_insort_key)
      from False have "f x \<noteq> f ?k" by auto
      with h k False show ?thesis by auto
    qed
  qed
qed

lemma find_in_sort_key:
  assumes "filter P L \<noteq> []"
  shows "find P (sort_key f L) = Some (hd (sort_key f (filter P L)))"
proof -
  have "filter P (sort_key f L) = sort_key f (filter P L)" by (rule filter_sort)
  moreover have "sort_key f (filter P L) \<noteq> []" using assms by (simp add: sort_key_Nil_iff)
  ultimately show ?thesis
    by (cases "sort_key f (filter P L)") (simp_all add: find_as_filter)
qed

lemma fold_update_distinct:
  "distinct (map fst kvs) \<Longrightarrow>
     fold (\<lambda>kv m. m(fst kv \<mapsto> snd kv)) kvs m a =
       (case map_of kvs a of Some v \<Rightarrow> Some v | None \<Rightarrow> m a)"
proof (induction kvs arbitrary: m)
  case Nil
  show ?case by simp
next
  case (Cons kv kvs)
  from Cons.prems have d: "distinct (map fst kvs)" and n: "map_of kvs (fst kv) = None"
    by (simp_all add: map_of_eq_None_iff)
  let ?F = "\<lambda>kv m. m(fst kv \<mapsto> snd kv)"
  have "fold ?F (kv # kvs) m a = fold ?F kvs (m(fst kv \<mapsto> snd kv)) a" by simp
  also have "\<dots> = (case map_of kvs a of Some v \<Rightarrow> Some v | None \<Rightarrow> (m(fst kv \<mapsto> snd kv)) a)"
    by (rule Cons.IH [OF d])
  also have "\<dots> = (case map_of (kv # kvs) a of Some v \<Rightarrow> Some v | None \<Rightarrow> m a)"
    using n by (cases kv) (auto split: option.splits)
  finally show ?case .
qed

lemma dict_of_distinct: "distinct (map fst kvs) \<Longrightarrow> dict_of kvs = map_of kvs"
  by (rule ext) (simp add: dict_of_def fold_update_distinct split: option.splits)

lemma distinct_map_filter_keyed:
  "distinct (map k xs) \<Longrightarrow>
     distinct (map fst (List.map_filter (\<lambda>r. map_option (Pair (k r)) (v r)) xs))"
proof (induction xs)
  case Nil
  show ?case by simp
next
  case (Cons x xs)
  have "k x \<notin> fst ` set (List.map_filter (\<lambda>r. map_option (Pair (k r)) (v r)) xs)"
    using Cons.prems by (fastforce simp add: set_map_filter image_iff)
  with Cons show ?case by (cases "v x") simp_all
qed

lemma performed_dict_lookup:
  "performed_dict df a =
     (case find (\<lambda>r. (record_id r, event_name r) = a) (performed_tests_df df) of
        None \<Rightarrow> None | Some r \<Rightarrow> test_date r)"
proof -
  let ?D = "performed_tests_df df"
  have d: "distinct (map (\<lambda>r. (record_id r, event_name r)) ?D)"
    by (simp add: performed_tests_df_def distinct_drop_duplicates)
  have all: "\<forall>r\<in>set ?D. test_date r \<noteq> None"
    using set_drop_duplicates [of "\<lambda>r. (record_id r, event_name r)"
        "sort_key (\<lambda>r. (record_id r, event_name r, na_last (test_date r))) (filter is_performed_row df)"]
    by (auto simp add: performed_tests_df_def is_performed_row_def)
  have f: "find (\<lambda>r. (record_id r, event_name r) = a \<and> test_date r \<noteq> None) ?D
      = find (\<lambda>r. (record_id r, event_name r) = a) ?D"
    using all by (intro find_cong) auto
  show ?thesis
    unfolding performed_dict_def dict_of_distinct [OF distinct_map_filter_keyed [OF d]]
      map_of_map_filter_keyed f ..
qed

lemma na_last_le: "na_last (Some a) \<le> na_last (Some b) \<longleftrightarrow> ts_value a \<le> ts_value b"
  by (simp add: na_last_def)

lemma na_last_eq: "na_last (Some a) = na_last (Some b) \<longleftrightarrow> ts_value a = ts_value b"
  by (simp add: na_last_def)

lemma performed_index_tracked:
  assumes "p \<noteq> []" and "e \<in> set ALL_TEST_EVENT_NAMES"
  shows "(\<not> (\<exists>x\<in>set df. record_id x = p \<and> event_name x = e \<and> test_date x \<noteq> None) \<longrightarrow>
            performed_dict df (p, e) = None)
    \<and> ((\<exists>x\<in>set df. record_id x = p \<and> event_name x = e \<and> test_date x \<noteq> None) \<longrightarrow>
         (\<exists>k d. performed_dict df (p, e) = Some d
            \<and> find (\<lambda>x. record_id x = p \<and> event_name x = e) (performed_tests_df df) = Some k
            \<and> test_date k = Some d
            \<and> (\<forall>x\<in>set df. \<forall>dx. record_id x = p \<and> event_name x = e \<and> test_date x = Some dx \<longrightarrow>
                  ts_value d \<le> ts_value dx)
            \<and> find (\<lambda>x. record_id x = p \<and> event_name x = e
                      \<and> (\<exists>dx. test_date x = Some dx \<and> ts_value dx = ts_value d)) df = Some k))"
proof -
  let ?K = "\<lambda>r. (record_id r, event_name r)"
  let ?f = "\<lambda>r. (record_id r, event_name r, na_last (test_date r))"
  let ?L = "filter is_performed_row df"
  let ?P = "\<lambda>r. ?K r = (p, e)"
  let ?M = "filter ?P ?L"
  have M: "?M = filter (\<lambda>x. record_id x = p \<and> event_name x = e \<and> test_date x \<noteq> None) df"
    using assms by (auto simp add: is_performed_row_def intro: filter_cong)
  have lookup: "performed_dict df (p, e) =
      (case find ?P (sort_key ?f ?L) of None \<Rightarrow> None | Some r \<Rightarrow> test_date r)"
    by (simp only: performed_dict_lookup performed_tests_df_def find_drop_duplicates)
  have kept: "find (\<lambda>x. record_id x = p \<and> event_name x = e) (performed_tests_df df)
      = find ?P (sort_key ?f ?L)"
    using find_drop_duplicates [of ?K "(p, e)" "sort_key ?f ?L"]
    by (simp add: performed_tests_df_def)
  have 1: "performed_dict df (p, e) = None"
    if "\<not> (\<exists>x\<in>set df. record_id x = p \<and> event_name x = e \<and> test_date x \<noteq> None)"
  proof -
    from that have "?M = []" unfolding M by (auto simp add: filter_empty_conv)
    then have "filter ?P (sort_key ?f ?L) = []" by (simp only: filter_sort sort_key_simps)
    then have "find ?P (sort_key ?f ?L) = None" by (simp add: find_as_filter)
    with lookup show ?thesis by simp
  qed
  have 2: "\<exists>k d. performed_dict df (p, e) = Some d
            \<and> find (\<lambda>x. record_id x = p \<and> event_name x = e) (performed_tests_df df) = Some k
            \<and> test_date k = Some d
            \<and> (\<forall>x\<in>set df. \<forall>dx. record_id x = p \<and> event_name x = e \<and> test_date x = Some dx \<longrightarrow>
                  ts_value d \<le> ts_value dx)
            \<and> find (\<lambda>x. record_id x = p \<and> event_name x = e
                      \<and> (\<exists>dx. test_date x = Some dx \<and> ts_value dx = ts_value d)) df = Some k"
    if "\<exists>x\<in>set df. record_id x = p \<and> event_name x = e \<and> test_date x \<noteq> None"
  proof -
    from that have ne: "?M \<noteq> []" unfolding M by (auto simp add: filter_empty_conv)
    define k where "k = hd (sort_key ?f ?M)"
    from hd_sort_key [OF ne, of ?f]
    have k: "k \<in> set ?M" "\<forall>x\<in>set ?M. ?f k \<le> ?f x" "find (\<lambda>x. ?f x = ?f k) ?M = Some k"
      unfolding k_def by blast+
    from k(1) have kp: "record_id k = p" "event_name k = e" "test_date k \<noteq> None"
      unfolding M by simp_all
    then obtain d where d: "test_date k = Some d" by auto
    have fk: "find ?P (sort_key ?f ?L) = Some k"
      unfolding k_def by (rule find_in_sort_key [OF ne])
    have min: "ts_value d \<le> ts_value dx"
      if "x \<in> set df" "record_id x = p" "event_name x = e" "test_date x = Some dx" for x dx
    proof -
      from that have "x \<in> set ?M" unfolding M by simp
      with k(2) have "?f k \<le> ?f x" by blast
      with that kp d show ?thesis by (simp add: na_last_le)
    qed
    have "find (\<lambda>x. ?f x = ?f k) ?M
        = find (\<lambda>x. (record_id x = p \<and> event_name x = e \<and> test_date x \<noteq> None) \<and> ?f x = ?f k) df"
      unfolding M by (rule find_filter)
    also have "\<dots> = find (\<lambda>x. record_id x = p \<and> event_name x = e
                      \<and> (\<exists>dx. test_date x = Some dx \<and> ts_value dx = ts_value d)) df"
      using kp d by (intro find_cong) (auto simp add: na_last_eq)
    finally have first: "find (\<lambda>x. record_id x = p \<and> event_name x = e
                      \<and> (\<exists>dx. test_date x = Some dx \<and> ts_value dx = ts_value d)) df = Some k"
      using k(3) by simp
    from lookup fk d have pd: "performed_dict df (p, e) = Some d" by simp
    from kept fk have kf: "find (\<lambda>x. record_id x = p \<and> event_name x = e) (performed_tests_df df) = Some k"
      by simp
    from min have min': "\<forall>x\<in>set df. \<forall>dx. record_id x = p \<and> event_name x = e \<and> test_date x = Some dx \<longrightarrow>
                  ts_value d \<le> ts_value dx" by blast
    show ?thesis
      by (intro exI [of _ k] exI [of _ d] conjI) (rule pd kf d min' first)+
  qed
  from 1 2 show ?thesis by blast
qed


lemma performed_index_untracked:
  assumes "p = [] \<or> e \<notin> set ALL_TEST_EVENT_NAMES"
  shows "performed_dict df (p, e) = None"
proof -
  have "\<forall>r\<in>set (performed_tests_df df). is_performed_row r"
    using set_drop_duplicates [of "\<lambda>r. (record_id r, event_name r)"
        "sort_key (\<lambda>r. (record_id r, event_name r, na_last (test_date r))) (filter is_performed_row df)"]
    by (auto simp add: performed_tests_df_def)
  with assms have "\<not> (\<exists>r. r \<in> set (performed_tests_df df) \<and> (record_id r, event_name r) = (p, e))"
    by (auto simp add: is_performed_row_def)
  then have "find (\<lambda>r. (record_id r, event_name r) = (p, e)) (performed_tests_df df) = None"
    by (simp only: find_None_iff not_False_eq_True)
  then show ?thesis by (simp add: performed_dict_lookup)
qed

text \<open>
  Claim C6, amended. A pair whose identifier is empty or whose event is outside the
  tracked vocabulary (the baseline event and the events of the schedule) has no entry in
  the index. For a participant with a non-empty identifier and an event of the tracked
  vocabulary: if no row of the pair has a test date, the index has no entry for it;
  otherwise the index maps the pair to the earliest test date among its rows, and the row
  kept for the pair is the first row of the input, in row order, that carries this
  earliest date.
\<close>

theorem performed_index_earliest:
  "(p = [] \<or> e \<notin> set ALL_TEST_EVENT_NAMES \<longrightarrow> performed_dict df (p, e) = None)
   \<and> (p \<noteq> [] \<and> e \<in> set ALL_TEST_EVENT_NAMES \<longrightarrow>
        (\<not> (\<exists>x\<in>set df. record_id x = p \<and> event_name x = e \<and> test_date x \<noteq> None) \<longrightarrow>
            performed_dict df (p, e) = None)
      \<and> ((\<exists>x\<in>set df. record_id x = p \<and> event_name x = e \<and> test_date x \<noteq> None) \<longrightarrow>
           (\<exists>k d. performed_dict df (p, e) = Some d
              \<and> find (\<lambda>x. record_id x = p \<and> event_name x = e) (performed_tests_df df) = Some k
              \<and> test_date k = Some d
              \<and> (\<forall>x\<in>set df. \<forall>dx. record_id x = p \<and> event_name x = e \<and> test_date x = Some dx \<longrightarrow>
                    ts_value d \<le> ts_value dx)
              \<and> find (\<lambda>x. record_id x = p \<and> event_name x = e
                        \<and> (\<exists>dx. test_date x = Some dx \<and> ts_value dx = ts_value d)) df = Some k)))"
proof (intro conjI impI)
  assume "p = [] \<or> e \<notin> set ALL_TEST_EVENT_NAMES"
  then show "performed_dict df (p, e) = None" by (rule performed_index_untracked)
next
  assume a: "p \<noteq> [] \<and> e \<in> set ALL_TEST_EVENT_NAMES"
    and n: "\<not> (\<exists>x\<in>set df. record_id x = p \<and> event_name x = e \<and> test_date x \<noteq> None)"
  from a have "p \<noteq> []" "e \<in> set ALL_TEST_EVENT_NAMES" by simp_all
  from performed_index_tracked [OF this, of df] n show "performed_dict df (p, e) = None" by blast
next
  assume a: "p \<noteq> [] \<and> e \<in> set ALL_TEST_EVENT_NAMES"
    and n: "\<exists>x\<in>set df. record_id x = p \<and> event_name x = e \<and> test_date x \<noteq> None"
  from a have "p \<noteq> []" "e \<in> set ALL_TEST_EVENT_NAMES" by simp_all
  from performed_index_tracked [OF this, of df] n
  show "\<exists>k d. performed_dict df (p, e) = Some d
              \<and> find (\<lambda>x. record_id x = p \<and> event_name x = e) (performed_tests_df df) = Some k
              \<and> test_date k = Some d
              \<and> (\<forall>x\<in>set df. \<forall>dx. record_id x = p \<and> event_name x = e \<and> test_date x = Some dx \<longrightarrow>
                    ts_value d \<le> ts_value dx)
              \<and> find (\<lambda>x. record_id x = p \<and> event_name x = e
                        \<and> (\<exists>dx. test_date x = Some dx \<and> ts_value dx = ts_value d)) df = Some k"
    by blast
qed

theorem performed_index_earliest_witness:
  "performed_dict duplicate_rows (''P1'', ''followup_visit_1'') = Some (day 2022 3 5)
   \<and> (\<exists>k d. performed_dict duplicate_rows (''P1'', ''followup_visit_1'') = Some d
         \<and> find (\<lambda>x. record_id x = ''P1'' \<and> event_name x = ''followup_visit_1'')
              (performed_tests_df duplicate_rows) = Some k
         \<and> test_date k = Some d
         \<and> (\<forall>x\<in>set duplicate_rows. \<forall>dx.
               record_id x = ''P1'' \<and> event_name x = ''followup_visit_1'' \<and> test_date x = Some dx \<longrightarrow>
               ts_value d \<le> ts_value dx)
         \<and> find (\<lambda>x. record_id x = ''P1'' \<and> event_name x = ''followup_visit_1''
                   \<and> (\<exists>dx. test_date x = Some dx \<and> ts_value dx = ts_value d)) duplicate_rows = Some k)
   \<and> performed_dict duplicate_rows (''P1'', ''unscheduled_visit'') = None
   \<and> performed_dict duplicate_rows (''P1'', ''followup_visit_2'') = None"
proof -
  have a: "''P1'' \<noteq> [] \<and> ''followup_visit_1'' \<in> set ALL_TEST_EVENT_NAMES" by code_simp
  have c: "\<exists>x\<in>set duplicate_rows.
      record_id x = ''P1'' \<and> event_name x = ''followup_visit_1'' \<and> test_date x \<noteq> None"
    by code_simp
  have v: "performed_dict duplicate_rows (''P1'', ''followup_visit_1'') = Some (day 2022 3 5)"
    by code_simp
  have u: "''P1'' = [] \<or> ''unscheduled_visit'' \<notin> set ALL_TEST_EVENT_NAMES" by code_simp
  have a2: "''P1'' \<noteq> [] \<and> ''followup_visit_2'' \<in> set ALL_TEST_EVENT_NAMES" by code_simp
  have c2: "\<not> (\<exists>x\<in>set duplicate_rows.
      record_id x = ''P1'' \<and> event_name x = ''followup_visit_2'' \<and> test_date x \<noteq> None)"
    by code_simp
  from performed_index_earliest [of "''P1''" "''followup_visit_1''" duplicate_rows] a c
  have 1: "\<exists>k d. performed_dict duplicate_rows (''P1'', ''followup_visit_1'') = Some d
         \<and> find (\<lambda>x. record_id x = ''P1'' \<and> event_name x = ''followup_visit_1'')
              (performed_tests_df duplicate_rows) = Some k
         \<and> test_date k = Some d
         \<and> (\<forall>x\<in>set duplicate_rows. \<forall>dx.
               record_id x = ''P1'' \<and> event_name x = ''followup_visit_1'' \<and> test_date x = Some dx \<longrightarrow>
               ts_value d \<le> ts_value dx)
         \<and> find (\<lambda>x. record_id x = ''P1'' \<and> event_name x = ''followup_visit_1''
                   \<and> (\<exists>dx. test_date x = Some dx \<and> ts_value dx = ts_value d)) duplicate_rows = Some k"
    by blast
  from performed_index_earliest [of "''P1''" "''unscheduled_visit''" duplicate_rows] u
  have 2: "performed_dict duplicate_rows (''P1'', ''unscheduled_visit'') = None" by blast
  from performed_index_earliest [of "''P1''" "''followup_visit_2''" duplicate_rows] a2 c2
  have 3: "performed_dict duplicate_rows (''P1'', ''followup_visit_2'') = None" by blast
  from v 1 2 3 show ?thesis by blast
qed

text \<open>
  A row of an event outside the tracked vocabulary has an identifier and a test date, and
  the index has no entry for its pair.
\<close>

theorem performed_index_untracked_event:
  "record_id (converted ''P1'' ''unscheduled_visit'' (Some (day 2022 4 1)) None) = ''P1''
   \<and> event_name (converted ''P1'' ''unscheduled_visit'' (Some (day 2022 4 1)) None) = ''unscheduled_visit''
   \<and> test_date (converted ''P1'' ''unscheduled_visit'' (Some (day 2022 4 1)) None) = Some (day 2022 4 1)
   \<and> performed_dict [converted ''P1'' ''unscheduled_visit'' (Some (day 2022 4 1)) None]
        (''P1'', ''unscheduled_visit'') = None"
  by code_simp

section \<open>Stopping and completing\<close>

lemma strip_all_space:
  assumes "\<forall>c\<in>set s. is_space c"
  shows "strip s = []"
proof -
  from assms have e: "dropWhile is_space s = []" by (simp add: dropWhile_eq_Nil_conv)
  show ?thesis unfolding strip_def e by simp
qed

lemma run_missing_id:
  "PARTICIPANT_ID_COL \<notin> set (columns t) \<Longrightarrow>
     run srt t = Inl (MissingColumns [PARTICIPANT_ID_COL])"
  by (simp add: run_def prepare_def)

lemma run_missing_status:
  "PARTICIPANT_ID_COL \<in> set (columns t) \<Longrightarrow> STATUS_COL \<notin> set (columns t) \<Longrightarrow>
     run srt t = Inl (MissingColumns [STATUS_COL])"
  by (simp add: run_def prepare_def)

lemma run_missing_event:
  assumes "list_all (\<lambda>r. castable (raw_participant_status r)) (rows t)"
    and "PARTICIPANT_ID_COL \<in> set (columns t)" and "STATUS_COL \<in> set (columns t)"
    and "EVENT_NAME_COL \<notin> set (columns t)"
  shows "run srt t = Inl (MissingColumns [EVENT_NAME_COL])"
  using assms by (simp add: run_def prepare_def)

lemma run_missing_dates:
  assumes "list_all (\<lambda>r. castable (raw_participant_status r)) (rows t)"
    and "PARTICIPANT_ID_COL \<in> set (columns t)" and "STATUS_COL \<in> set (columns t)"
    and "EVENT_NAME_COL \<in> set (columns t)"
    and "TEST_DATE_COL \<notin> set (columns t)" and "VISIT_DATE_COL \<notin> set (columns t)"
  shows "run srt t = Inl (MissingColumns [TEST_DATE_COL, VISIT_DATE_COL])"
  using assms by (simp add: run_def prepare_def)

lemma run_complete:
  assumes "list_all (\<lambda>r. castable (raw_participant_status r)) (rows t)"
    and "PARTICIPANT_ID_COL \<in> set (columns t)" and "STATUS_COL \<in> set (columns t)"
    and "EVENT_NAME_COL \<in> set (columns t)" and "TEST_DATE_COL \<in> set (columns t)"
  shows "\<exists>out. run srt t = Inr out \<and> map clear_counts out = map (normalize_row (columns t)) (rows t)"
proof -
  let ?df = "map (normalize_row (columns t)) (rows t)"
  from assms have p: "prepare t = Inr ?df" by (simp add: prepare_def)
  with assms(5)
  have r: "run srt t = Inr (blank_excluded (write_counts (deviation_records srt (columns t) ?df) ?df))"
    by (simp add: run_def)
  have cl: "map clear_counts ?df = ?df" by simp
  have "written (set (deviation_records srt (columns t) ?df)) ?df
          (blank_excluded (write_counts (deviation_records srt (columns t) ?df) ?df))"
    using written_blank_excluded [OF written_write_counts [OF written_refl,
          of "deviation_records srt (columns t) ?df" ?df] cl]
    by simp
  from written_frame [OF this] cl r show ?thesis by simp
qed

lemma malformed_cells:
  "to_datetime cols col (Unparseable s) = None \<and> to_datetime cols col Blank = None
    \<and> castable (Unparseable s) \<and> to_Int64 (Unparseable s) = None
    \<and> castable Blank \<and> to_Int64 Blank = None
    \<and> clean_id None = [] \<and> ((\<forall>c\<in>set s. is_space c) \<longrightarrow> clean_id (Some s) = [])"
  by (simp add: to_datetime_def coerce_def castable_def to_Int64_def clean_id_def strip_all_space)

text \<open>
  Claim C7, amended. If the identifier column is absent, or the status column is absent,
  the run stops without a table and reports that column. Let every status cell be blank,
  text that is not a number, or a whole number that fits 64 bits (any other number makes
  the cast of the status column raise, before the event column is looked at). Then: if
  the event-name column is absent, or both the test-date and the visit-date column are
  absent, the run stops without a table and reports the absent columns; and if the
  identifier, status, event-name and test-date columns are present, the run completes,
  whether or not the visit-date and endpoint-date columns exist, and every input row is
  in the saved table in its converted form. An unparseable or blank date becomes NaT, a
  non-numeric or blank status becomes NA and passes the cast, a blank or all-whitespace
  identifier becomes the empty text.
\<close>

theorem abort_policy:
  "(PARTICIPANT_ID_COL \<notin> set (columns t) \<longrightarrow>
      run srt t = Inl (MissingColumns [PARTICIPANT_ID_COL]))
   \<and> (PARTICIPANT_ID_COL \<in> set (columns t) \<and> STATUS_COL \<notin> set (columns t) \<longrightarrow>
      run srt t = Inl (MissingColumns [STATUS_COL]))
   \<and> (list_all (\<lambda>r. castable (raw_participant_status r)) (rows t) \<longrightarrow>
        (PARTICIPANT_ID_COL \<in> set (columns t) \<and> STATUS_COL \<in> set (columns t)
           \<and> EVENT_NAME_COL \<notin> set (columns t) \<longrightarrow>
         run srt t = Inl (MissingColumns [EVENT_NAME_COL]))
      \<and> (PARTICIPANT_ID_COL \<in> set (columns t) \<and> STATUS_COL \<in> set (columns t)
           \<and> EVENT_NAME_COL \<in> set (columns t)
           \<and> TEST_DATE_COL \<notin> set (columns t) \<and> VISIT_DATE_COL \<notin> set (columns t) \<longrightarrow>
         run srt t = Inl (MissingColumns [TEST_DATE_COL, VISIT_DATE_COL]))
      \<and> (PARTICIPANT_ID_COL \<in> set (columns t) \<and> STATUS_COL \<in> set (columns t)
           \<and> EVENT_NAME_COL \<in> set (columns t) \<and> TEST_DATE_COL \<in> set (columns t) \<longrightarrow>
         (\<exists>out. run srt t = Inr out
            \<and> map clear_counts out = map (normalize_row (columns t)) (rows t))))
   \<and> to_datetime cols col (Unparseable s) = None \<and> to_datetime cols col Blank = None
   \<and> castable (Unparseable s) \<and> to_Int64 (Unparseable s) = None
   \<and> castable Blank \<and> to_Int64 Blank = None
   \<and> clean_id None = [] \<and> ((\<forall>c\<in>set s. is_space c) \<longrightarrow> clean_id (Some s) = [])"
  using run_missing_id [of t srt] run_missing_status [of t srt] run_missing_event [of t srt]
    run_missing_dates [of t srt] run_complete [of t srt] malformed_cells [of cols col s]
  by blast

theorem abort_policy_witness:
  "run (sort_key record_id) headless_table = Inl (MissingColumns [PARTICIPANT_ID_COL])
   \<and> run (sort_key record_id)
        \<lparr>columns = [PARTICIPANT_ID_COL, EVENT_NAME_COL, TEST_DATE_COL], rows = rows example_table\<rparr>
       = Inl (MissingColumns [STATUS_COL])
   \<and> run (sort_key record_id)
        \<lparr>columns = [PARTICIPANT_ID_COL, STATUS_COL, TEST_DATE_COL], rows = rows example_table\<rparr>
       = Inl (MissingColumns [EVENT_NAME_COL])
   \<and> run (sort_key record_id)
        \<lparr>columns = [PARTICIPANT_ID_COL, STATUS_COL, EVENT_NAME_COL], rows = rows example_table\<rparr>
       = Inl (MissingColumns [TEST_DATE_COL, VISIT_DATE_COL])
   \<and> (\<exists>out. run (sort_key record_id) malformed_table = Inr out
         \<and> map clear_counts out = map (normalize_row (columns malformed_table)) (rows malformed_table))
   \<and> clean_id (Some ''  '') = []"
proof -
  let ?srt = "sort_key record_id :: row list \<Rightarrow> row list"
  let ?ns = "\<lparr>columns = [PARTICIPANT_ID_COL, EVENT_NAME_COL, TEST_DATE_COL], rows = rows example_table\<rparr>"
  let ?ne = "\<lparr>columns = [PARTICIPANT_ID_COL, STATUS_COL, TEST_DATE_COL], rows = rows example_table\<rparr>"
  let ?nd = "\<lparr>columns = [PARTICIPANT_ID_COL, STATUS_COL, EVENT_NAME_COL], rows = rows example_table\<rparr>"
  have m1: "PARTICIPANT_ID_COL \<notin> set (columns headless_table)" by code_simp
  have m2: "PARTICIPANT_ID_COL \<in> set (columns ?ns) \<and> STATUS_COL \<notin> set (columns ?ns)" by code_simp
  have c3: "list_all (\<lambda>r. castable (raw_participant_status r)) (rows ?ne)" by code_simp
  have m3: "PARTICIPANT_ID_COL \<in> set (columns ?ne) \<and> STATUS_COL \<in> set (columns ?ne)
           \<and> EVENT_NAME_COL \<notin> set (columns ?ne)" by code_simp
  have c4: "list_all (\<lambda>r. castable (raw_participant_status r)) (rows ?nd)" by code_simp
  have m4: "PARTICIPANT_ID_COL \<in> set (columns ?nd) \<and> STATUS_COL \<in> set (columns ?nd)
           \<and> EVENT_NAME_COL \<in> set (columns ?nd)
           \<and> TEST_DATE_COL \<notin> set (columns ?nd) \<and> VISIT_DATE_COL \<notin> set (columns ?nd)" by code_simp
  have c5: "list_all (\<lambda>r. castable (raw_participant_status r)) (rows malformed_table)" by code_simp
  have m5: "PARTICIPANT_ID_COL \<in> set (columns malformed_table) \<and> STATUS_COL \<in> set (columns malformed_table)
          \<and> EVENT_NAME_COL \<in> set (columns malformed_table) \<and> TEST_DATE_COL \<in> set (columns malformed_table)"
    by code_simp
  have sp: "\<forall>c\<in>set ''  ''. is_space c" by code_simp
  from abort_policy [of headless_table ?srt] m1
  have 1: "run ?srt headless_table = Inl (MissingColumns [PARTICIPANT_ID_COL])" by blast
  from abort_policy [of ?ns ?srt] m2
  have 2: "run ?srt ?ns = Inl (MissingColumns [STATUS_COL])" by blast
  from abort_policy [of ?ne ?srt] c3 m3
  have 3: "run ?srt ?ne = Inl (MissingColumns [EVENT_NAME_COL])" by blast
  from abort_policy [of ?nd ?srt] c4 m4
  have 4: "run ?srt ?nd = Inl (MissingColumns [TEST_DATE_COL, VISIT_DATE_COL])" by blast
  from abort_policy [of malformed_table ?srt] c5 m5
  have 5: "\<exists>out. run ?srt malformed_table = Inr out
         \<and> map clear_counts out = map (normalize_row (columns malformed_table)) (rows malformed_table)"
    by blast
  from abort_policy [of _ _ _ _ "''  ''"] sp have 6: "clean_id (Some ''  '') = []" by blast
  from 1 2 3 4 5 6 show ?thesis by blast
qed

text \<open>
  A table without the visit-date and endpoint-date columns: the run completes and the
  counts of the participant are computed.
\<close>

theorem missing_visit_date_column_runs:
  "VISIT_DATE_COL \<notin> set (columns narrow_table)
   \<and> ENDPOINT_DATE_1_COL \<notin> set (columns narrow_table)
   \<and> run (sort_key record_id) narrow_table =
       Inr [set_counts \<lparr>missed_count = 9, outside_window_count = 0, total_deviations = 9\<rparr>
              (converted ''P1'' ''study_baseline'' (Some (day 2022 1 1)) (Some 1))]"
  by code_simp

section \<open>Independence of stored counts\<close>

lemma normalize_row_cong:
  assumes "TEST_DATE_COL \<in> set cols \<longleftrightarrow> TEST_DATE_COL \<in> set cols'"
    and "VISIT_DATE_COL \<in> set cols \<longleftrightarrow> VISIT_DATE_COL \<in> set cols'"
    and "ENDPOINT_DATE_1_COL \<in> set cols \<longleftrightarrow> ENDPOINT_DATE_1_COL \<in> set cols'"
    and "ENDPOINT_DATE_2_COL \<in> set cols \<longleftrightarrow> ENDPOINT_DATE_2_COL \<in> set cols'"
  shows "normalize_row cols
           (r\<lparr>raw_missed_test_count := a, raw_outside_window_test_count := b,
              raw_total_test_deviations := c\<rparr>) = normalize_row cols' r"
  using assms by (simp add: normalize_row_def to_datetime_def)

lemma deviation_records_cong:
  assumes "TEST_DATE_COL \<in> set cols \<longleftrightarrow> TEST_DATE_COL \<in> set cols'"
    and "VISIT_DATE_COL \<in> set cols \<longleftrightarrow> VISIT_DATE_COL \<in> set cols'"
  shows "deviation_records srt cols df = deviation_records srt cols' df"
proof -
  from assms have "effective_baseline cols = effective_baseline cols'"
    by (auto simp add: effective_baseline_def fun_eq_iff)
  then show ?thesis by (simp add: deviation_records_def final_baselines_def)
qed

lemma count_col_names:
  "c \<in> {PARTICIPANT_ID_COL, EVENT_NAME_COL, VISIT_DATE_COL, TEST_DATE_COL, STATUS_COL,
         ENDPOINT_DATE_1_COL, ENDPOINT_DATE_2_COL} \<Longrightarrow>
   c \<notin> {MISSED_TEST_COUNT_COL, OUTSIDE_WINDOW_COUNT_COL, TOTAL_DEVIATION_COUNT_COL}"
  by (elim insertE emptyE;
      simp add: PARTICIPANT_ID_COL_def EVENT_NAME_COL_def VISIT_DATE_COL_def TEST_DATE_COL_def
        STATUS_COL_def ENDPOINT_DATE_1_COL_def ENDPOINT_DATE_2_COL_def MISSED_TEST_COUNT_COL_def
        OUTSIDE_WINDOW_COUNT_COL_def TOTAL_DEVIATION_COUNT_COL_def)

text \<open>
  Claim C5. The run is a function of the input rows without their count cells: two
  tables that agree on every column other than the three count columns and on every
  cell other than the count cells are converted to the same rows, give the same
  per-participant records and the same saved table. In particular a second run on
  unchanged rows gives the records of the first, whatever the count columns hold.
\<close>

theorem records_ignore_stored_counts:
  assumes "set (columns t) - {MISSED_TEST_COUNT_COL, OUTSIDE_WINDOW_COUNT_COL, TOTAL_DEVIATION_COUNT_COL}
         = set (columns t') - {MISSED_TEST_COUNT_COL, OUTSIDE_WINDOW_COUNT_COL, TOTAL_DEVIATION_COUNT_COL}"
    and "map (\<lambda>r. r\<lparr>raw_missed_test_count := None, raw_outside_window_test_count := None,
                    raw_total_test_deviations := None\<rparr>) (rows t)
       = map (\<lambda>r. r\<lparr>raw_missed_test_count := None, raw_outside_window_test_count := None,
                    raw_total_test_deviations := None\<rparr>) (rows t')"
  shows "run srt t = run srt t' \<and> prepare t = prepare t'
    \<and> (\<forall>df. prepare t = Inr df \<longrightarrow>
          deviation_records srt (columns t) df = deviation_records srt (columns t') df)"
proof -
  let ?cc = "{MISSED_TEST_COUNT_COL, OUTSIDE_WINDOW_COUNT_COL, TOTAL_DEVIATION_COUNT_COL}"
  let ?z = "\<lambda>r. r\<lparr>raw_missed_test_count := None, raw_outside_window_test_count := None,
                    raw_total_test_deviations := None\<rparr>"
  have mem: "c \<in> set (columns t) \<longleftrightarrow> c \<in> set (columns t')"
    if "c \<in> {PARTICIPANT_ID_COL, EVENT_NAME_COL, VISIT_DATE_COL, TEST_DATE_COL, STATUS_COL,
         ENDPOINT_DATE_1_COL, ENDPOINT_DATE_2_COL}" for c
  proof -
    from count_col_names [OF that] have n: "c \<notin> ?cc" .
    from assms(1) have "c \<in> set (columns t) - ?cc \<longleftrightarrow> c \<in> set (columns t') - ?cc"
      by (rule arg_cong)
    with n show ?thesis by (simp only: Diff_iff simp_thms)
  qed
  have nz: "normalize_row (columns t) (?z r) = normalize_row (columns t') r" for r
    by (rule normalize_row_cong) (simp_all add: mem)
  have nz': "normalize_row (columns t') (?z r) = normalize_row (columns t') r" for r
    by (rule normalize_row_cong) simp_all
  have nzt: "normalize_row (columns t) (?z r) = normalize_row (columns t) r" for r
    by (rule normalize_row_cong) simp_all
  have same: "normalize_row (columns t) r = normalize_row (columns t') r" for r
    using nz [of r] nzt [of r] by simp
  have "map (normalize_row (columns t')) (rows t) = map (\<lambda>r. normalize_row (columns t') (?z r)) (rows t)"
    by (simp add: nz')
  also have "\<dots> = map (normalize_row (columns t')) (map ?z (rows t))" by (simp add: comp_def)
  also have "\<dots> = map (normalize_row (columns t')) (map ?z (rows t'))" by (simp only: assms(2))
  also have "\<dots> = map (\<lambda>r. normalize_row (columns t') (?z r)) (rows t')" by (simp add: comp_def)
  also have "\<dots> = map (normalize_row (columns t')) (rows t')" by (simp add: nz')
  finally have a: "map (normalize_row (columns t')) (rows t) = map (normalize_row (columns t')) (rows t')" .
  have rows: "map (normalize_row (columns t)) (rows t) = map (normalize_row (columns t')) (rows t')"
  proof -
    have "normalize_row (columns t) = normalize_row (columns t')" by (rule ext) (rule same)
    with a show ?thesis by simp
  qed
  have "map (\<lambda>r. raw_participant_status (?z r)) (rows t) = map (\<lambda>r. raw_participant_status (?z r)) (rows t')"
    using arg_cong [OF assms(2), of "map raw_participant_status"] by (simp add: comp_def)
  then have "map raw_participant_status (rows t) = map raw_participant_status (rows t')" by simp
  moreover have "list_all (\<lambda>r. castable (raw_participant_status r)) xs
      = list_all castable (map raw_participant_status xs)" for xs :: "raw_row list"
    by (simp add: list_all_iff)
  ultimately have cast: "list_all (\<lambda>r. castable (raw_participant_status r)) (rows t)
      = list_all (\<lambda>r. castable (raw_participant_status r)) (rows t')"
    by simp
  have m: "PARTICIPANT_ID_COL \<in> set (columns t) \<longleftrightarrow> PARTICIPANT_ID_COL \<in> set (columns t')"
    "STATUS_COL \<in> set (columns t) \<longleftrightarrow> STATUS_COL \<in> set (columns t')"
    "EVENT_NAME_COL \<in> set (columns t) \<longleftrightarrow> EVENT_NAME_COL \<in> set (columns t')"
    "TEST_DATE_COL \<in> set (columns t) \<longleftrightarrow> TEST_DATE_COL \<in> set (columns t')"
    "VISIT_DATE_COL \<in> set (columns t) \<longleftrightarrow> VISIT_DATE_COL \<in> set (columns t')"
    by (rule mem, simp)+
  have p: "prepare t = prepare t'"
    unfolding prepare_def m rows cast ..
  have d: "deviation_records srt (columns t) df = deviation_records srt (columns t') df" for df
    by (rule deviation_records_cong) (rule m)+
  have "run srt t = run srt t'"
    unfolding run_def p m d ..
  with p d show ?thesis by blast
qed

theorem records_ignore_stored_counts_witness:
  "run (sort_key record_id) rerun_table = run (sort_key record_id) example_table
   \<and> prepare rerun_table = Inr example_rows
   \<and> deviation_records (sort_key record_id) (columns rerun_table) example_rows
       = deviation_records (sort_key record_id) (columns example_table) example_rows"
proof -
  have c: "set (columns rerun_table)
             - {MISSED_TEST_COUNT_COL, OUTSIDE_WINDOW_COUNT_COL, TOTAL_DEVIATION_COUNT_COL}
         = set (columns example_table)
             - {MISSED_TEST_COUNT_COL, OUTSIDE_WINDOW_COUNT_COL, TOTAL_DEVIATION_COUNT_COL}"
    by code_simp
  have r: "map (\<lambda>r. r\<lparr>raw_missed_test_count := None, raw_outside_window_test_count := None,
                    raw_total_test_deviations := None\<rparr>) (rows rerun_table)
       = map (\<lambda>r. r\<lparr>raw_missed_test_count := None, raw_outside_window_test_count := None,
                    raw_total_test_deviations := None\<rparr>) (rows example_table)"
    by code_simp
  have p: "prepare rerun_table = Inr example_rows" by code_simp
  from records_ignore_stored_counts [OF c r] p show ?thesis by blast
qed


end
